theory Spec2Isabelle
  imports Complex_Main "HOL-Library.Word" "HOL-Library.Extended_Nat"
begin

unbundle bit_operations_syntax

section \<open>Numbers, errors and buffers\<close>

text \<open>
  JavaScript numbers are modelled as exact rationals: the scores, durations and
  thresholds of the program are small integers and short decimal fractions, and the
  claims below are about bands and bounds, not about rounding in the last binary digit.
  \<open>Math.round\<close> rounds a half towards plus infinity, \<open>Math.ceil\<close> is the ceiling.
  A thrown \<open>Error\<close> is a value carrying its message; a function that may throw returns
  \<open>jsError + 'a\<close>.
\<close>

datatype jsError = Error string

type_synonym buffer = "8 word list"

definition Math_round :: "rat \<Rightarrow> int" where
  "Math_round x = \<lfloor>x + 1 / 2\<rfloor>"

definition Math_ceil :: "rat \<Rightarrow> int" where
  "Math_ceil x = \<lceil>x\<rceil>"

section \<open>The audio engine and \<open>ServerlessMediaProcessingService.splitAudio\<close>\<close>

text \<open>
  The FFmpeg WebAssembly engine is an external collaborator. Its calls are the fields of
  a record: \<open>getMediaInfo\<close> (the probe; it throws or returns the media information),
  \<open>extractAudio\<close> and \<open>optimizeAudio\<close> (they throw or return the processed audio),
  \<open>writeInput\<close> (writing the input of a split to the engine's file system; \<open>False\<close>
  when it throws) and \<open>execSplit\<close>, one run of the engine with \<open>-ss start -t length\<close>
  followed by reading the chunk back (\<open>None\<close> when any of it throws).
\<close>

record MediaInfo =
  mi_duration :: rat
  mi_format :: string
  mi_hasAudio :: bool
  mi_hasVideo :: bool

record ffmpeg =
  getMediaInfo :: "buffer \<Rightarrow> string \<Rightarrow> jsError + MediaInfo"
  extractAudio :: "buffer \<Rightarrow> string \<Rightarrow> jsError + buffer"
  optimizeAudio :: "buffer \<Rightarrow> string \<Rightarrow> jsError + buffer"
  writeInput :: "buffer \<Rightarrow> bool"
  execSplit :: "buffer \<Rightarrow> rat \<Rightarrow> rat \<Rightarrow> buffer option"

definition splitError :: jsError where
  "splitError = Error ''Failed to split audio file''"

text \<open>
  The loop \<open>for (let i = 0; i < numChunks; i++)\<close> of \<open>splitAudio\<close>. The bound is
  \<open>Math.ceil(totalDuration / chunkDuration)\<close>, which is \<open>Infinity\<close> when the chunk
  duration is zero: the loop is a partial function, and \<open>None\<close> is "never returns".
\<close>

partial_function (option) splitLoop ::
  "ffmpeg \<Rightarrow> buffer \<Rightarrow> rat \<Rightarrow> enat \<Rightarrow> nat \<Rightarrow> buffer list \<Rightarrow> (jsError + buffer list) option"
where
  "splitLoop ff inputBuffer chunkDuration numChunks i chunks =
     (if enat i < numChunks then
        (let startTime = of_nat i * chunkDuration in
         case execSplit ff inputBuffer startTime chunkDuration of
           None \<Rightarrow> Some (Inl splitError)
         | Some chunk \<Rightarrow> splitLoop ff inputBuffer chunkDuration numChunks (i + 1) (chunks @ [chunk]))
      else Some (Inr chunks))"

definition numChunksOf :: "rat \<Rightarrow> rat \<Rightarrow> enat" where
  "numChunksOf totalDuration chunkDuration =
     (if chunkDuration = 0 then \<infinity> else enat (nat (Math_ceil (totalDuration / chunkDuration))))"

definition splitAudio :: "ffmpeg \<Rightarrow> buffer \<Rightarrow> string \<Rightarrow> rat \<Rightarrow> (jsError + buffer list) option" where
  "splitAudio ff inputBuffer fileName chunkDurationMinutes =
     (case getMediaInfo ff inputBuffer fileName of
        Inl e \<Rightarrow> Some (Inl e)
      | Inr mediaInfo \<Rightarrow>
          (let totalDuration = mi_duration mediaInfo in
           if totalDuration \<le> chunkDurationMinutes * 60 then Some (Inr [inputBuffer])
           else if \<not> writeInput ff inputBuffer then Some (Inl splitError)
           else
             (let chunkDuration = chunkDurationMinutes * 60;
                  numChunks = numChunksOf totalDuration chunkDuration
              in splitLoop ff inputBuffer chunkDuration numChunks 0 [])))"

text \<open>
  The windows the loop asks the engine for, in closed form: window \<open>i\<close> is the pair
  (start, requested length) of the \<open>-ss\<close> and \<open>-t\<close> arguments of iteration \<open>i\<close>.
\<close>

definition chunkWindows :: "rat \<Rightarrow> rat \<Rightarrow> (rat \<times> rat) list" where
  "chunkWindows totalDuration chunkDuration =
     map (\<lambda>i. (of_nat i * chunkDuration, chunkDuration))
       [0..<nat (Math_ceil (totalDuration / chunkDuration))]"

text \<open>Running the engine on a list of windows, stopping at the first failure.\<close>

fun execWindows :: "ffmpeg \<Rightarrow> buffer \<Rightarrow> (rat \<times> rat) list \<Rightarrow> jsError + buffer list" where
  "execWindows ff inputBuffer [] = Inr []"
| "execWindows ff inputBuffer ((s, d) # ws) =
     (case execSplit ff inputBuffer s d of
        None \<Rightarrow> Inl splitError
      | Some chunk \<Rightarrow>
          (case execWindows ff inputBuffer ws of
             Inl e \<Rightarrow> Inl e
           | Inr chunks \<Rightarrow> Inr (chunk # chunks)))"

text \<open>
  An engine for the examples: it reports the duration \<open>D\<close>, writes and converts
  without failure, and the chunk it returns for a window records the window's start and
  requested length in whole minutes.
\<close>

definition recordingEngine :: "rat \<Rightarrow> ffmpeg" where
  "recordingEngine D =
     \<lparr> getMediaInfo = (\<lambda>b f. Inr \<lparr> mi_duration = D, mi_format = ''wav'',
                                      mi_hasAudio = True, mi_hasVideo = False \<rparr>),
       extractAudio = (\<lambda>b f. Inr b),
       optimizeAudio = (\<lambda>b f. Inr b),
       writeInput = (\<lambda>b. True),
       execSplit = (\<lambda>b s d. Some [word_of_int (\<lfloor>s\<rfloor> div 60), word_of_int (\<lfloor>d\<rfloor> div 60)]) \<rparr>"

subsection \<open>Chunk windows\<close>

lemma floor_rat_numeral_div: "\<lfloor>(numeral a :: rat) / numeral b\<rfloor> = numeral a div numeral b"
  using floor_divide_of_int_eq [of "numeral a" "numeral b", where ?'a = rat] by simp

lemma ceiling_rat_numeral_div: "\<lceil>(numeral a :: rat) / numeral b\<rceil> = - ((- numeral a) div numeral b)"
  using ceiling_divide_eq_div [of "numeral a" "numeral b", where ?'a = rat] by simp

text \<open>With a finite bound the loop returns, and what it returns is the engine run on
  the windows \<open>i \<le> k < n\<close> in order, appended to the chunks collected so far.\<close>

lemma splitLoop_exec:
  "splitLoop ff inp cd (enat n) i chunks =
     Some (case execWindows ff inp (map (\<lambda>k. (of_nat k * cd, cd)) [i..<n]) of
             Inl e \<Rightarrow> Inl e | Inr cs \<Rightarrow> Inr (chunks @ cs))"
proof (induction "n - i" arbitrary: i chunks)
  case 0
  then show ?case by (subst splitLoop.simps) simp
next
  case (Suc d)
  then have lt: "i < n" and d: "d = n - Suc i" by simp_all
  have up: "[i..<n] = i # [Suc i..<n]" using lt by (simp add: upt_conv_Cons)
  show ?case
  proof (cases "execSplit ff inp (of_nat i * cd) cd")
    case None
    then show ?thesis using lt by (subst splitLoop.simps) (simp add: up)
  next
    case (Some c)
    have "splitLoop ff inp cd (enat n) i chunks = splitLoop ff inp cd (enat n) (Suc i) (chunks @ [c])"
      using lt Some by (subst splitLoop.simps) simp
    also have "\<dots> = Some (case execWindows ff inp (map (\<lambda>k. (of_nat k * cd, cd)) [Suc i..<n]) of
             Inl e \<Rightarrow> Inl e | Inr cs \<Rightarrow> Inr ((chunks @ [c]) @ cs))"
      using Suc.hyps(1)[OF d] .
    finally show ?thesis using Some by (simp add: up split: sum.splits)
  qed
qed

lemma ceil_bounds:
  fixes D C :: rat
  assumes "0 < C" "0 < D"
  shows "of_nat (nat \<lceil>D / C\<rceil> - 1) * C < D" "D \<le> of_nat (nat \<lceil>D / C\<rceil>) * C"
proof -
  have pos: "0 < \<lceil>D / C\<rceil>" using assms by (simp add: ceiling_less_iff)
  have "of_int \<lceil>D / C\<rceil> - 1 < D / C" by linarith
  moreover have "(of_nat (nat \<lceil>D / C\<rceil> - 1) :: rat) = of_int \<lceil>D / C\<rceil> - 1"
    using pos by (simp add: of_nat_diff nat_less_iff Suc_leI)
  ultimately show "of_nat (nat \<lceil>D / C\<rceil> - 1) * C < D"
    using assms by (simp add: pos_less_divide_eq)
  have "D / C \<le> of_int \<lceil>D / C\<rceil>" by (rule le_of_int_ceiling)
  then have "D \<le> of_int \<lceil>D / C\<rceil> * C"
    using assms(1) by (simp only: pos_divide_le_eq)
  moreover have "(of_nat (nat \<lceil>D / C\<rceil>) :: rat) = of_int \<lceil>D / C\<rceil>"
    using pos by simp
  ultimately show "D \<le> of_nat (nat \<lceil>D / C\<rceil>) * C"
    by (simp only:)
qed

lemma chunkWindows_25min: "chunkWindows 1500 600 = [(0, 600), (600, 600), (1200, 600)]"
  by (simp add: chunkWindows_def Math_ceil_def ceiling_rat_numeral_div upt_rec)

text \<open>
  Claim C5, as the code has it. Let \<open>D\<close> be the probed duration and
  \<open>C = chunkDurationMinutes * 60 > 0\<close>. When \<open>D \<le> C\<close>, \<open>splitAudio\<close> returns the
  single whole input with no split. When \<open>C < D\<close> (and the input was written), it
  returns, and its result is the engine run on the windows \<open>chunkWindows D C\<close> in order:
  there are \<open>ceil (D / C)\<close> of them, window \<open>i\<close> starts at \<open>i * C\<close> and every window,
  the last one too, is requested with length \<open>C\<close>. The windows are contiguous and
  disjoint, the last one starts before \<open>D\<close> and ends at \<open>count * C \<ge> D\<close>: they cover
  \<open>[0, D)\<close>, and cutting the last window at \<open>D\<close> is left to the engine.
\<close>

theorem splitAudio_windows:
  assumes "getMediaInfo ff inp fn = Inr mi" and "0 < m"
    and "D = mi_duration mi" and "C = m * 60"
  shows "(D \<le> C \<longrightarrow> splitAudio ff inp fn m = Some (Inr [inp])) \<and>
         (C < D \<and> writeInput ff inp \<longrightarrow>
            splitAudio ff inp fn m = Some (execWindows ff inp (chunkWindows D C))) \<and>
         (C < D \<longrightarrow>
            int (length (chunkWindows D C)) = Math_ceil (D / C) \<and>
            (\<forall>i < length (chunkWindows D C). chunkWindows D C ! i = (of_nat i * C, C)) \<and>
            of_nat (length (chunkWindows D C) - 1) * C < D \<and>
            D \<le> of_nat (length (chunkWindows D C)) * C)"
proof (intro conjI impI)
  assume "D \<le> C"
  then show "splitAudio ff inp fn m = Some (Inr [inp])"
    using assms by (simp add: splitAudio_def)
next
  assume a: "C < D \<and> writeInput ff inp"
  have C0: "C \<noteq> 0" "0 < C" using assms by simp_all
  have "splitAudio ff inp fn m = splitLoop ff inp C (enat (nat (Math_ceil (D / C)))) 0 []"
    using assms a C0 by (simp add: splitAudio_def numChunksOf_def Let_def)
  also have "\<dots> = Some (execWindows ff inp (chunkWindows D C))"
    by (simp add: splitLoop_exec chunkWindows_def split: sum.splits)
  finally show "splitAudio ff inp fn m = Some (execWindows ff inp (chunkWindows D C))" .
next
  assume a: "C < D"
  have C0: "0 < C" using assms by simp
  then have D0: "0 < D" using a by simp
  have pos: "0 < \<lceil>D / C\<rceil>" using C0 D0 by (simp add: ceiling_less_iff)
  show "int (length (chunkWindows D C)) = Math_ceil (D / C)"
    using pos by (simp add: chunkWindows_def Math_ceil_def)
  show "\<forall>i < length (chunkWindows D C). chunkWindows D C ! i = (of_nat i * C, C)"
    by (simp add: chunkWindows_def)
  show "of_nat (length (chunkWindows D C) - 1) * C < D"
    using ceil_bounds(1)[OF C0 D0] by (simp add: chunkWindows_def Math_ceil_def)
  show "D \<le> of_nat (length (chunkWindows D C)) * C"
    using ceil_bounds(2)[OF C0 D0] by (simp add: chunkWindows_def Math_ceil_def)
qed

text \<open>The theorem at a 25-minute file and at an 8-minute file, with
  \<open>chunkDurationMinutes = 10\<close>: three windows for the first, no split for the second.\<close>

theorem splitAudio_windows_witness:
  "splitAudio (recordingEngine 1500) [] ''talk.wav'' 10
     = Some (execWindows (recordingEngine 1500) [] (chunkWindows 1500 600)) \<and>
   int (length (chunkWindows 1500 600)) = Math_ceil (1500 / 600) \<and>
   chunkWindows 1500 600 ! 2 = (of_nat 2 * 600, 600) \<and>
   of_nat (length (chunkWindows 1500 600) - 1) * 600 < (1500 :: rat) \<and>
   (1500 :: rat) \<le> of_nat (length (chunkWindows 1500 600)) * 600 \<and>
   splitAudio (recordingEngine 480) [7] ''short.wav'' 10 = Some (Inr [[7]])"
proof -
  have g: "getMediaInfo (recordingEngine 1500) [] ''talk.wav''
             = Inr \<lparr> mi_duration = 1500, mi_format = ''wav'', mi_hasAudio = True, mi_hasVideo = False \<rparr>"
    by (simp add: recordingEngine_def)
  have g': "getMediaInfo (recordingEngine 480) [7] ''short.wav''
             = Inr \<lparr> mi_duration = 480, mi_format = ''wav'', mi_hasAudio = True, mi_hasVideo = False \<rparr>"
    by (simp add: recordingEngine_def)
  have w: "writeInput (recordingEngine 1500) []" by (simp add: recordingEngine_def)
  have l: "(2::nat) < length (chunkWindows 1500 600)" by (simp add: chunkWindows_25min)
  have short: "splitAudio (recordingEngine 480) [7] ''short.wav'' 10 = Some (Inr [[7]])"
    using splitAudio_windows [OF g', of 10 480 600] by simp
  show ?thesis
    using splitAudio_windows [OF g, of 10 1500 600] w l short by simp
qed

text \<open>
  Claim C5 as stated fails: for the 25-minute file with \<open>chunkDurationMinutes = 10\<close>
  the three chunks are requested at minutes 0, 10 and 20 with lengths 10, 10 and 10
  minutes; the code does not truncate the last window to 5 minutes.
\<close>

theorem splitAudio_last_window_counterexample:
  "splitAudio (recordingEngine 1500) [] ''talk.wav'' 10 = Some (Inr [[0, 10], [10, 10], [20, 10]])"
  by (simp add: splitAudio_def recordingEngine_def numChunksOf_def Math_ceil_def ceiling_rat_numeral_div
      splitLoop.simps)

section \<open>Strings and the regular expressions of the program\<close>

text \<open>
  Texts are ASCII strings. \<open>toLowerCase\<close> maps \<open>A\<close>-\<open>Z\<close> to \<open>a\<close>-\<open>z\<close>, \<open>\w\<close> is
  \<open>[A-Za-z0-9_]\<close>, \<open>\s\<close> is tab, line feed, vertical tab, form feed, carriage return
  and space. Every regular expression of the program is built from the constructors of
  \<open>rx\<close>: a literal compared ignoring case (all patterns carry the flag \<open>i\<close>), one
  character of a class, a greedy star of a class, \<open>\b\<close>, \<open>^\<close>, sequence, alternation
  and negative lookahead.
\<close>

definition charCode :: "char \<Rightarrow> nat" where
  "charCode c = of_char c"

definition isUpper :: "char \<Rightarrow> bool" where
  "isUpper c = (65 \<le> charCode c \<and> charCode c \<le> 90)"

definition toLowerChar :: "char \<Rightarrow> char" where
  "toLowerChar c = (if isUpper c then char_of (charCode c + 32) else c)"

definition toLowerCase :: "string \<Rightarrow> string" where
  "toLowerCase s = map toLowerChar s"

definition isWordChar :: "char \<Rightarrow> bool" where
  "isWordChar c =
     (let n = charCode c in
      (48 \<le> n \<and> n \<le> 57) \<or> (65 \<le> n \<and> n \<le> 90) \<or> n = 95 \<or> (97 \<le> n \<and> n \<le> 122))"

definition isSpace :: "char \<Rightarrow> bool" where
  "isSpace c = (let n = charCode c in (9 \<le> n \<and> n \<le> 13) \<or> n = 32)"

definition isPunct :: "char \<Rightarrow> bool" where
  "isPunct c = (c \<in> set '',.!?;:'')"

text \<open>
  The same classes read off the bits of a character, least significant bit first; these
  equations are what evaluation uses.
\<close>

lemma charCode_bits:
  "charCode (Char b0 b1 b2 b3 b4 b5 b6 b7) =
     of_bool b0 + 2 * of_bool b1 + 4 * of_bool b2 + 8 * of_bool b3 + 16 * of_bool b4 +
     32 * of_bool b5 + 64 * of_bool b6 + 128 * of_bool b7"
  by (simp add: charCode_def)

lemma isWordChar_bits [code]:
  "isWordChar (Char b0 b1 b2 b3 b4 b5 b6 b7) =
     (\<not> b7 \<and>
      ((\<not> b6 \<and> b5 \<and> b4 \<and> \<not> (b3 \<and> (b2 \<or> b1))) \<or>
       (b6 \<and> (b0 \<or> b1 \<or> b2 \<or> b3 \<or> b4) \<and> \<not> (b4 \<and> b3 \<and> (b2 \<or> (b1 \<and> b0)))) \<or>
       (b6 \<and> \<not> b5 \<and> b4 \<and> b3 \<and> b2 \<and> b1 \<and> b0)))"
  unfolding isWordChar_def Let_def charCode_bits
  by (cases b0; cases b1; cases b2; cases b3; cases b4; cases b5; cases b6; cases b7; simp)

lemma isUpper_bits [code]:
  "isUpper (Char b0 b1 b2 b3 b4 b5 b6 b7) =
     (\<not> b7 \<and> b6 \<and> \<not> b5 \<and> (b0 \<or> b1 \<or> b2 \<or> b3 \<or> b4) \<and> \<not> (b4 \<and> b3 \<and> (b2 \<or> (b1 \<and> b0))))"
  unfolding isUpper_def charCode_bits
  by (cases b0; cases b1; cases b2; cases b3; cases b4; cases b5; cases b6; cases b7; simp)

lemma isSpace_bits [code]:
  "isSpace (Char b0 b1 b2 b3 b4 b5 b6 b7) =
     (\<not> b7 \<and> \<not> b6 \<and>
      ((b5 \<and> \<not> b4 \<and> \<not> b3 \<and> \<not> b2 \<and> \<not> b1 \<and> \<not> b0) \<or>
       (\<not> b5 \<and> \<not> b4 \<and> b3 \<and> (b0 \<or> b1 \<or> b2) \<and> \<not> (b2 \<and> b1))))"
  unfolding isSpace_def Let_def charCode_bits
  by (cases b0; cases b1; cases b2; cases b3; cases b4; cases b5; cases b6; cases b7; simp)

lemma toLowerChar_bits [code]:
  "toLowerChar (Char b0 b1 b2 b3 b4 b5 b6 b7) =
     (if isUpper (Char b0 b1 b2 b3 b4 b5 b6 b7) then Char b0 b1 b2 b3 b4 True b6 b7
      else Char b0 b1 b2 b3 b4 b5 b6 b7)"
proof (cases "isUpper (Char b0 b1 b2 b3 b4 b5 b6 b7)")
  case True
  then have b: "\<not> b7" "b6" "\<not> b5" by (simp_all add: isUpper_bits)
  have "\<forall>c0 c1 c2 c3 c4.
          char_of (charCode (Char c0 c1 c2 c3 c4 False True False) + 32) = Char c0 c1 c2 c3 c4 True True False"
    by code_simp
  then show ?thesis using True b by (simp add: toLowerChar_def)
next
  case False
  then show ?thesis by (simp add: toLowerChar_def)
qed

datatype charclass = Space | Punct | NonWord

fun inClass :: "charclass \<Rightarrow> char \<Rightarrow> bool" where
  "inClass Space c = isSpace c"
| "inClass Punct c = isPunct c"
| "inClass NonWord c = (\<not> isWordChar c)"

datatype rx =
    Lit string
  | Cls charclass
  | Star charclass
  | WordB
  | Bol
  | Seq rx rx
  | Alt rx rx
  | NotAhead rx

text \<open>
  The matcher is the backtracking search of the language: \<open>rxm re p (acc, s)\<close> lists,
  in the order the search tries them, the states reached by matching \<open>re\<close> at the front
  of \<open>s\<close>. A state is the pair of the characters consumed so far, last one first, and
  the rest of the input; \<open>p\<close> is the character before the match started (\<open>None\<close> at
  the start of the input). The match the language reports is the first state of the list.
\<close>

fun stripLit :: "string \<Rightarrow> string \<Rightarrow> string \<Rightarrow> (string \<times> string) option" where
  "stripLit [] acc s = Some (acc, s)"
| "stripLit (c # cs) acc [] = None"
| "stripLit (c # cs) acc (x # xs) =
     (if toLowerChar x = toLowerChar c then stripLit cs (x # acc) xs else None)"

fun starStates :: "charclass \<Rightarrow> string \<Rightarrow> string \<Rightarrow> (string \<times> string) list" where
  "starStates k acc [] = [(acc, [])]"
| "starStates k acc (x # xs) =
     (if inClass k x then starStates k (x # acc) xs @ [(acc, x # xs)] else [(acc, x # xs)])"

definition prevOf :: "char option \<Rightarrow> string \<Rightarrow> char option" where
  "prevOf p acc = (case acc of [] \<Rightarrow> p | c # _ \<Rightarrow> Some c)"

definition wordBefore :: "char option \<Rightarrow> bool" where
  "wordBefore p = (case p of None \<Rightarrow> False | Some c \<Rightarrow> isWordChar c)"

definition wordAfter :: "string \<Rightarrow> bool" where
  "wordAfter s = (case s of [] \<Rightarrow> False | c # _ \<Rightarrow> isWordChar c)"

fun rxm :: "rx \<Rightarrow> char option \<Rightarrow> string \<times> string \<Rightarrow> (string \<times> string) list" where
  "rxm (Lit l) p (acc, s) = (case stripLit l acc s of None \<Rightarrow> [] | Some st \<Rightarrow> [st])"
| "rxm (Cls k) p (acc, s) =
     (case s of [] \<Rightarrow> [] | x # xs \<Rightarrow> if inClass k x then [(x # acc, xs)] else [])"
| "rxm (Star k) p (acc, s) = starStates k acc s"
| "rxm WordB p (acc, s) = (if wordBefore (prevOf p acc) \<noteq> wordAfter s then [(acc, s)] else [])"
| "rxm Bol p (acc, s) = (if prevOf p acc = None then [(acc, s)] else [])"
| "rxm (Seq a b) p (acc, s) = concat (map (rxm b p) (rxm a p (acc, s)))"
| "rxm (Alt a b) p (acc, s) = rxm a p (acc, s) @ rxm b p (acc, s)"
| "rxm (NotAhead a) p (acc, s) = (if rxm a p (acc, s) = [] then [(acc, s)] else [])"

text \<open>
  One search at one position: the matched text and the rest of the input. No pattern of
  the program matches the empty string, and an empty match counts as no match.
\<close>

definition jsExec :: "rx \<Rightarrow> char option \<Rightarrow> string \<Rightarrow> (string \<times> string) option" where
  "jsExec re p s =
     (case rxm re p ([], s) of
        [] \<Rightarrow> None
      | (acc, r) # _ \<Rightarrow> (if acc = [] then None else Some (rev acc, r)))"

lemma stripLit_length:
  "stripLit l acc s = Some (acc', r) \<Longrightarrow> length acc' + length r = length acc + length s"
  by (induction l acc s rule: stripLit.induct) (auto split: if_splits)

lemma starStates_length:
  "(acc', r) \<in> set (starStates k acc s) \<Longrightarrow> length acc' + length r = length acc + length s"
  by (induction k acc s rule: starStates.induct) (auto split: if_splits)

lemma rxm_length:
  "(acc', r) \<in> set (rxm re p (acc, s)) \<Longrightarrow> length acc' + length r = length acc + length s"
proof (induction re arbitrary: acc s acc' r)
  case (Lit l)
  then have "stripLit l acc s = Some (acc', r)" by (auto split: option.splits)
  then show ?case by (rule stripLit_length)
next
  case (Cls k)
  then show ?case by (auto split: list.splits if_splits)
next
  case (Star k)
  then show ?case by (auto dest: starStates_length)
next
  case (Seq a b)
  from Seq.prems obtain acc1 r1 where
    1: "(acc1, r1) \<in> set (rxm a p (acc, s))" and 2: "(acc', r) \<in> set (rxm b p (acc1, r1))"
    by auto
  from Seq.IH(1)[OF 1] Seq.IH(2)[OF 2] show ?case by simp
next
  case (Alt a b)
  then show ?case by auto
qed (auto split: if_splits)

lemma jsExec_shorter: "jsExec re p s = Some (m, r) \<Longrightarrow> length r < length s"
proof -
  assume a: "jsExec re p s = Some (m, r)"
  then obtain acc rest where h: "rxm re p ([], s) = (acc, r) # rest" and ne: "acc \<noteq> []"
    by (auto simp: jsExec_def split: list.splits if_splits)
  then have "(acc, r) \<in> set (rxm re p ([], s))" by simp
  from rxm_length[OF this] ne show ?thesis by (cases acc) auto
qed

text \<open>
  A pattern with the flag \<open>g\<close> run over a whole string, as \<open>replace\<close>, \<open>match\<close> and
  \<open>split\<close> do: search at the current position; after a match go on behind it, otherwise
  keep one character and go on. The result is the input cut into matches and kept
  characters.
\<close>

datatype piece = Keep char | Match string

function jsScan :: "rx \<Rightarrow> char option \<Rightarrow> string \<Rightarrow> piece list" where
  "jsScan re p s =
     (case jsExec re p s of
        Some (m, r) \<Rightarrow> Match m # jsScan re (Some (last m)) r
      | None \<Rightarrow> (case s of [] \<Rightarrow> [] | x # xs \<Rightarrow> Keep x # jsScan re (Some x) xs))"
  by pat_completeness auto
termination
  by (relation "measure (\<lambda>(re, p, s). length s)") (auto dest: jsExec_shorter)

declare jsScan.simps [simp del]

definition render :: "(string \<Rightarrow> string) \<Rightarrow> piece list \<Rightarrow> string" where
  "render f ps = concat (map (\<lambda>pc. case pc of Keep c \<Rightarrow> [c] | Match m \<Rightarrow> f m) ps)"

definition matchesOf :: "piece list \<Rightarrow> string list" where
  "matchesOf ps = concat (map (\<lambda>pc. case pc of Keep c \<Rightarrow> [] | Match m \<Rightarrow> [m]) ps)"

text \<open>\<open>s.replace(re, f)\<close>, \<open>s.match(re) || []\<close> and \<open>s.split(re)\<close>.\<close>

definition jsReplace :: "rx \<Rightarrow> (string \<Rightarrow> string) \<Rightarrow> string \<Rightarrow> string" where
  "jsReplace re f s = render f (jsScan re None s)"

definition jsMatch :: "rx \<Rightarrow> string \<Rightarrow> string list" where
  "jsMatch re s = matchesOf (jsScan re None s)"

fun fieldsOf :: "piece list \<Rightarrow> string list" where
  "fieldsOf [] = [[]]"
| "fieldsOf (Match m # ps) = [] # fieldsOf ps"
| "fieldsOf (Keep c # ps) = (case fieldsOf ps of [] \<Rightarrow> [[c]] | f # fs \<Rightarrow> (c # f) # fs)"

definition jsSplit :: "rx \<Rightarrow> string \<Rightarrow> string list" where
  "jsSplit re s = fieldsOf (jsScan re None s)"

fun joinWith :: "string \<Rightarrow> string list \<Rightarrow> string" where
  "joinWith sep [] = []"
| "joinWith sep [x] = x"
| "joinWith sep (x # y # ys) = x @ sep @ joinWith sep (y # ys)"

fun jsIncludes :: "string \<Rightarrow> string \<Rightarrow> bool" where
  "jsIncludes [] sub = (sub = [])"
| "jsIncludes (x # xs) sub = (take (length sub) (x # xs) = sub \<or> jsIncludes xs sub)"

text \<open>The shapes of pattern the program uses.\<close>

definition wsPlus :: rx where
  "wsPlus = Seq (Cls Space) (Star Space)"

fun alts :: "string list \<Rightarrow> rx" where
  "alts [] = NotAhead (Lit [])"
| "alts [w] = Lit w"
| "alts (w # ws) = Alt (Lit w) (alts ws)"

text \<open>\<open>new RegExp(`\\b${w}\\b`, 'gi')\<close>\<close>

definition wordRx :: "string \<Rightarrow> rx" where
  "wordRx w = Seq WordB (Seq (Lit w) WordB)"

fun seqs :: "rx list \<Rightarrow> rx" where
  "seqs [] = Lit []"
| "seqs [r] = r"
| "seqs (r # rs) = Seq r (seqs rs)"

section \<open>\<open>SpeechAnalyticsService\<close>\<close>

record PaceAnalysis =
  paceCategory :: string
  paceScore :: int
  paceRecommendation :: string

record FillerWordAnalysis =
  totalFillerWords :: nat
  fillerWordPercentage :: rat
  fillerWordScore :: int
  fillerWordFeedback :: string
  fillerWordCounts :: "(string \<times> nat) list"

record VocabularyAnalysis =
  uniqueWords :: nat
  vocabularyDiversity :: rat
  vocabularyScore :: int
  vocabularyFeedback :: string
  wordComplexityDistribution :: "(string \<times> nat) list"

record ConfidenceAnalysis =
  confidenceScore :: int
  confidenceFeedback :: string
  confidenceWords :: nat
  uncertaintyWords :: nat

record SpeechAnalytics =
  overallScore :: rat
  totalWords :: nat
  wordsPerMinute :: rat
  paceAnalysis :: PaceAnalysis
  fillerWordAnalysis :: FillerWordAnalysis
  vocabularyAnalysis :: VocabularyAnalysis
  confidenceAnalysis :: ConfidenceAnalysis
  recommendations :: "string list"

definition OPTIMAL_WPM_MIN :: rat where
  "OPTIMAL_WPM_MIN = 140"

definition OPTIMAL_WPM_MAX :: rat where
  "OPTIMAL_WPM_MAX = 180"

definition PURE_FILLER_SOUNDS :: "string list" where
  "PURE_FILLER_SOUNDS = [''um'', ''uh'', ''ah'', ''er'', ''eh'', ''hmm'', ''mm'', ''mhm'', ''uhm'']"

definition DISCOURSE_MARKERS :: "string list" where
  "DISCOURSE_MARKERS = [''well'', ''okay'', ''right'', ''now'', ''alright'', ''yeah'']"

definition HEDGE_WORDS :: "string list" where
  "HEDGE_WORDS = [''basically'', ''actually'', ''literally'', ''totally'', ''really'']"

text \<open>The context-sensitive patterns, each with the word its matches are counted under.\<close>

definition FILLER_PATTERNS :: "(rx \<times> string) list" where
  "FILLER_PATTERNS =
     [(seqs [WordB, Lit ''like'', wsPlus,
             alts [''um'', ''uh'', ''ah'', ''er'', ''so'', ''and'', ''i'', ''you'', ''we'', ''they'',
                   ''it'', ''this'', ''that'', ''when'', ''where'', ''what''], WordB], ''like''),
      (seqs [WordB, alts [''um'', ''uh'', ''ah'', ''er'', ''like'', ''yeah'', ''well'', ''okay''],
             wsPlus, Lit ''so'', WordB], ''so''),
      (seqs [WordB, Lit ''so'', wsPlus, alts [''um'', ''uh'', ''ah'', ''er'', ''like'', ''yeah''], WordB],
       ''so''),
      (wordRx ''you know'', ''you know''),
      (wordRx ''i mean'', ''i mean''),
      (seqs [WordB, Lit ''sort of'', WordB,
             NotAhead (Seq wsPlus (alts [''like'', ''similar'', ''the same'']))], ''sort of''),
      (seqs [WordB, Lit ''kind of'', WordB,
             NotAhead (Seq wsPlus (alts [''like'', ''similar'', ''the same'', ''person'', ''thing'']))],
       ''kind of''),
      (wordRx ''let me think'', ''let me think''),
      (wordRx ''how do i say'', ''how do i say''),
      (wordRx ''what do you call it'', ''what do you call it'')]"

definition CONFIDENCE_WORDS :: "string list" where
  "CONFIDENCE_WORDS =
     [''definitely'', ''certainly'', ''absolutely'', ''clearly'', ''obviously'',
      ''without doubt'', ''undoubtedly'', ''precisely'', ''exactly'', ''specifically'',
      ''conclusively'', ''positively'', ''unquestionably'', ''confident'', ''sure'',
      ''convinced'', ''guarantee'', ''promise'', ''assure'', ''affirm'']"

definition UNCERTAINTY_WORDS :: "string list" where
  "UNCERTAINTY_WORDS =
     [''maybe'', ''perhaps'', ''possibly'', ''might'', ''could be'', ''i think'',
      ''i believe'', ''i guess'', ''probably'', ''likely'', ''seems like'',
      ''appears to'', ''i suppose'', ''presumably'', ''apparently'', ''unsure'',
      ''uncertain'', ''not sure'', ''hard to say'', ''difficult to tell'']"

definition extractWords :: "string \<Rightarrow> string list" where
  "extractWords text = filter (\<lambda>word. length word > 0) (jsSplit wsPlus text)"

definition analyzePace :: "rat \<Rightarrow> PaceAnalysis" where
  "analyzePace wpm =
     (if wpm \<ge> OPTIMAL_WPM_MIN \<and> wpm \<le> OPTIMAL_WPM_MAX then
        \<lparr> paceCategory = ''Optimal'', paceScore = 10,
          paceRecommendation = ''Excellent speaking pace! You maintain an ideal rhythm for audience comprehension.'' \<rparr>
      else if wpm < 100 then
        \<lparr> paceCategory = ''Too Slow'', paceScore = 4,
          paceRecommendation = ''Consider speaking faster to maintain audience engagement and energy.'' \<rparr>
      else if wpm < OPTIMAL_WPM_MIN then
        \<lparr> paceCategory = ''Slow'', paceScore = 6,
          paceRecommendation = ''Try to increase your speaking pace slightly for better flow and engagement.'' \<rparr>
      else if wpm \<le> 200 then
        \<lparr> paceCategory = ''Fast'', paceScore = 7,
          paceRecommendation = ''Good pace, but consider slowing down slightly for better clarity.'' \<rparr>
      else
        \<lparr> paceCategory = ''Too Fast'', paceScore = 4,
          paceRecommendation = ''Slow down to ensure your audience can follow and understand your message.'' \<rparr>)"

text \<open>
  \<open>Record<string, number>\<close> objects are association lists in insertion order;
  \<open>addCount m k n\<close> is \<open>m[k] = (m[k] || 0) + n\<close> and \<open>countOf m k\<close> is \<open>m[k] || 0\<close>.
\<close>

fun addCount :: "(string \<times> nat) list \<Rightarrow> string \<Rightarrow> nat \<Rightarrow> (string \<times> nat) list" where
  "addCount [] k n = [(k, n)]"
| "addCount ((k', c) # m) k n = (if k' = k then (k', c + n) # m else (k', c) # addCount m k n)"

definition countOf :: "(string \<times> nat) list \<Rightarrow> string \<Rightarrow> nat" where
  "countOf m k = (case map_of m k of None \<Rightarrow> 0 | Some c \<Rightarrow> c)"

text \<open>\<open>word.toLowerCase().replace(/[^\w]/g, '')\<close>\<close>

definition cleanWordOf :: "string \<Rightarrow> string" where
  "cleanWordOf word = jsReplace (Cls NonWord) (\<lambda>m. []) (toLowerCase word)"

text \<open>
  The three counting layers of \<open>analyzeFillerWords\<close>. Each step takes and returns the
  pair of \<open>fillerWordCounts\<close> and \<open>totalFillerWords\<close>.
\<close>

definition pureStep :: "string \<Rightarrow> (string \<times> nat) list \<times> nat \<Rightarrow> (string \<times> nat) list \<times> nat" where
  "pureStep word st =
     (let cleanWord = cleanWordOf word in
      if cleanWord \<in> set PURE_FILLER_SOUNDS
      then (addCount (fst st) cleanWord 1, snd st + 1)
      else st)"

definition overuseStep ::
  "nat \<Rightarrow> (string \<times> nat) list \<Rightarrow> string \<Rightarrow> (string \<times> nat) list \<times> nat \<Rightarrow> (string \<times> nat) list \<times> nat" where
  "overuseStep overuseThreshold wordFrequency word st =
     (let count = countOf wordFrequency word in
      if count > overuseThreshold then
        (let fillerCount = count - overuseThreshold in
         if fillerCount > 0
         then (addCount (fst st) word fillerCount, snd st + fillerCount)
         else st)
      else st)"

definition patternStep ::
  "string \<Rightarrow> rx \<times> string \<Rightarrow> (string \<times> nat) list \<times> nat \<Rightarrow> (string \<times> nat) list \<times> nat" where
  "patternStep fullText pw st =
     (let matches = jsMatch (fst pw) fullText in
      if length matches > 0
      then (addCount (fst st) (snd pw) (length matches), snd st + length matches)
      else st)"

definition fillerBand :: "rat \<Rightarrow> int \<times> string" where
  "fillerBand pct =
     (if pct < 1 then
        (10, ''Excellent! You maintain very clean speech with minimal filler words.'')
      else if pct < 2 then
        (8, ''Great job keeping filler words to a minimum.'')
      else if pct < 4 then
        (6, ''Good control, but try to reduce filler words for more professional delivery.'')
      else if pct < 7 then
        (4, ''Practice pausing instead of using filler words to improve clarity.'')
      else
        (2, ''Focus on reducing filler words significantly. Practice speaking more slowly and deliberately.''))"

definition fillerLayers :: "string list \<Rightarrow> (string \<times> nat) list \<times> nat" where
  "fillerLayers words =
     (let fullText = toLowerCase (joinWith '' '' words);
          st1 = fold pureStep words ([], 0);
          wordFrequency = fold (\<lambda>word m. addCount m (cleanWordOf word) 1) words [];
          overuseThreshold = (if length words > 100 then 3 else 2);
          potentialFillers = DISCOURSE_MARKERS @ HEDGE_WORDS;
          st2 = fold (overuseStep overuseThreshold wordFrequency) potentialFillers st1
      in fold (patternStep fullText) FILLER_PATTERNS st2)"

definition analyzeFillerWords :: "string list \<Rightarrow> FillerWordAnalysis" where
  "analyzeFillerWords words =
     (let st = fillerLayers words;
          total = snd st;
          percentage = (if length words > 0 then of_nat total / of_nat (length words) * 100 else 0);
          band = fillerBand percentage
      in \<lparr> totalFillerWords = total,
           fillerWordPercentage = percentage,
           fillerWordScore = fst band,
           fillerWordFeedback = snd band,
           fillerWordCounts = fst st \<rparr>)"

definition analyzeWordComplexity :: "string list \<Rightarrow> (string \<times> nat) list" where
  "analyzeWordComplexity words =
     [(''Simple (1-4 letters)'', length (filter (\<lambda>w. length w \<le> 4) words)),
      (''Medium (5-7 letters)'', length (filter (\<lambda>w. \<not> length w \<le> 4 \<and> length w \<le> 7) words)),
      (''Complex (8+ letters)'', length (filter (\<lambda>w. \<not> length w \<le> 4 \<and> \<not> length w \<le> 7) words))]"

definition vocabularyBand :: "rat \<Rightarrow> int \<times> string" where
  "vocabularyBand diversity =
     (if diversity > 7 / 10 then
        (10, ''Outstanding vocabulary diversity! You use a rich variety of words.'')
      else if diversity > 5 / 10 then
        (8, ''Good vocabulary diversity. Your word choice keeps the content engaging.'')
      else if diversity > 35 / 100 then
        (6, ''Decent vocabulary, but try to vary your word choices more for better engagement.'')
      else if diversity > 2 / 10 then
        (4, ''Limited vocabulary diversity. Practice using more varied expressions and synonyms.'')
      else
        (2, ''Very repetitive vocabulary. Focus on expanding your word choices and expressions.''))"

definition analyzeVocabulary :: "string list \<Rightarrow> VocabularyAnalysis" where
  "analyzeVocabulary words =
     (let cleanWords = filter (\<lambda>w. length w > 0) (map cleanWordOf words);
          unique = length (remdups cleanWords);
          diversity = (if length cleanWords > 0 then of_nat unique / of_nat (length cleanWords) else 0);
          band = vocabularyBand diversity
      in \<lparr> uniqueWords = unique,
           vocabularyDiversity = diversity,
           vocabularyScore = fst band,
           vocabularyFeedback = snd band,
           wordComplexityDistribution = analyzeWordComplexity cleanWords \<rparr>)"

text \<open>
  \<open>new RegExp(`\\b${word.replace(/\s+/g, '\\s+')}\\b`, 'gi')\<close>: the words of the
  phrase, separated by \<open>\s+\<close>.
\<close>

definition phraseRx :: "string \<Rightarrow> rx" where
  "phraseRx word =
     Seq WordB (Seq (seqs (map (\<lambda>pc. case pc of Keep c \<Rightarrow> Lit [c] | Match m \<Rightarrow> wsPlus)
                             (jsScan wsPlus None word))) WordB)"

definition countPhrases :: "string list \<Rightarrow> string \<Rightarrow> nat" where
  "countPhrases phrases textLower =
     fold (\<lambda>word n. n + length (jsMatch (phraseRx word) textLower)) phrases 0"

definition confidenceFeedbackOf :: "int \<Rightarrow> string" where
  "confidenceFeedbackOf score =
     (if score \<ge> 9 then ''You speak with exceptional confidence and authority!''
      else if score \<ge> 7 then ''Good confidence level. Your assertions are clear and strong.''
      else if score \<ge> 5 then ''Moderate confidence. Consider using more definitive language.''
      else if score \<ge> 3 then ''Work on speaking more confidently. Reduce uncertain language.''
      else ''Focus on building confidence. Use stronger, more assertive statements.'')"

definition analyzeConfidence :: "string \<Rightarrow> ConfidenceAnalysis" where
  "analyzeConfidence textLower =
     (let cw = countPhrases CONFIDENCE_WORDS textLower;
          uw = countPhrases UNCERTAINTY_WORDS textLower;
          total = length (jsSplit wsPlus textLower);
          confidenceRatio = of_nat cw / max (of_nat total / 100) 1;
          uncertaintyRatio = of_nat uw / max (of_nat total / 100) 1;
          raw = 6 + min (confidenceRatio * 2) 3 - min (uncertaintyRatio * 2) 4;
          score = max 1 (min 10 (Math_round raw))
      in \<lparr> confidenceScore = score,
           confidenceFeedback = confidenceFeedbackOf score,
           confidenceWords = cw,
           uncertaintyWords = uw \<rparr>)"

definition calculateOverallScore ::
  "PaceAnalysis \<Rightarrow> FillerWordAnalysis \<Rightarrow> VocabularyAnalysis \<Rightarrow> ConfidenceAnalysis \<Rightarrow> rat" where
  "calculateOverallScore pace fillers vocabulary confidence =
     (let weightedScore =
            of_int (paceScore pace) * (25 / 100) +
            of_int (fillerWordScore fillers) * (30 / 100) +
            of_int (vocabularyScore vocabulary) * (25 / 100) +
            of_int (confidenceScore confidence) * (20 / 100)
      in of_int (Math_round (weightedScore * 10)) / 10)"

text \<open>The emoji that open the recommendations, as the bytes of their UTF-8 encoding.\<close>

definition emojiRunner :: string where
  "emojiRunner = map char_of [0xF0, 0x9F, 0x8F, 0x83, 0xE2, 0x80, 0x8D, 0xE2, 0x99, 0x82, 0xEF, 0xB8, 0x8F :: nat]"

definition emojiNoEntry :: string where
  "emojiNoEntry = map char_of [0xF0, 0x9F, 0x9A, 0xAB :: nat]"

definition emojiBooks :: string where
  "emojiBooks = map char_of [0xF0, 0x9F, 0x93, 0x9A :: nat]"

definition emojiBiceps :: string where
  "emojiBiceps = map char_of [0xF0, 0x9F, 0x92, 0xAA :: nat]"

definition emojiTarget :: string where
  "emojiTarget = map char_of [0xF0, 0x9F, 0x8E, 0xAF :: nat]"

definition emojiBook :: string where
  "emojiBook = map char_of [0xF0, 0x9F, 0x93, 0x96 :: nat]"

definition emojiStar :: string where
  "emojiStar = map char_of [0xF0, 0x9F, 0x8C, 0x9F :: nat]"

definition generateRecommendations ::
  "PaceAnalysis \<Rightarrow> FillerWordAnalysis \<Rightarrow> VocabularyAnalysis \<Rightarrow> ConfidenceAnalysis \<Rightarrow> string list" where
  "generateRecommendations pace fillers vocabulary confidence =
     (let r1 = (if paceScore pace < 7
                then [emojiRunner @ '' Pace Improvement: '' @ paceRecommendation pace] else []);
          topFillers = map fst (take 2 (sort_key (\<lambda>kc. - int (snd kc)) (fillerWordCounts fillers)));
          r2 = (if fillerWordScore fillers < 7 \<and> length topFillers > 0
                then [emojiNoEntry @ '' Reduce Filler Words: Focus on eliminating '' @ [CHR 0x22] @
                      joinWith ([CHR 0x22] @ '', '' @ [CHR 0x22]) topFillers @ [CHR 0x22] @
                      '' from your speech'']
                else []);
          r3 = (if vocabularyScore vocabulary < 7
                then [emojiBooks @ '' Expand Vocabulary: '' @ vocabularyFeedback vocabulary] else []);
          r4 = (if confidenceScore confidence < 7
                then [emojiBiceps @ '' Boost Confidence: '' @ confidenceFeedback confidence] else []);
          r5 = [emojiTarget @ '' Practice Regularly: Record yourself speaking daily to track improvement'',
                emojiBook @ '' Study Great Speakers: Watch TED talks and note speaking techniques''];
          rs = r1 @ r2 @ r3 @ r4 @ r5
      in if length (filter (\<lambda>r. jsIncludes r emojiRunner \<or> jsIncludes r emojiNoEntry) rs) = 0
         then rs @ [emojiStar @ '' Keep it Up: Your speaking skills are developing well!'']
         else rs)"

definition analyzeSpeech :: "string \<Rightarrow> rat \<Rightarrow> SpeechAnalytics" where
  "analyzeSpeech text durationMinutes =
     (let words = extractWords text;
          total = length words;
          wpm = (if durationMinutes > 0 then of_nat total / durationMinutes else 0);
          pace = analyzePace wpm;
          fillers = analyzeFillerWords words;
          vocabulary = analyzeVocabulary words;
          confidence = analyzeConfidence (toLowerCase text)
      in \<lparr> overallScore = calculateOverallScore pace fillers vocabulary confidence,
           totalWords = total,
           wordsPerMinute = wpm,
           paceAnalysis = pace,
           fillerWordAnalysis = fillers,
           vocabularyAnalysis = vocabulary,
           confidenceAnalysis = confidence,
           recommendations = generateRecommendations pace fillers vocabulary confidence \<rparr>)"


subsection \<open>Score bounds\<close>











subsection \<open>Filler words and added pure fillers\<close>

text \<open>The number of tokens of a transcript that the first layer counts.\<close>

definition pureFillerCount :: "string list \<Rightarrow> nat" where
  "pureFillerCount words = length (filter (\<lambda>word. cleanWordOf word \<in> set PURE_FILLER_SOUNDS) words)"

text \<open>
  Two transcripts that differ in one pure filler: the second is the first with \<open>um\<close>
  put between \<open>you\<close> and \<open>know\<close>.
\<close>

definition wordsPlain :: "string list" where
  "wordsPlain = [''you'', ''know'', ''a'', ''a'', ''a'', ''a'', ''a'', ''a'', ''a'', ''a'', ''a'', ''a'', ''a'', ''a'']"

definition wordsMoreFiller :: "string list" where
  "wordsMoreFiller = [''you'', ''um'', ''know'', ''a'', ''a'', ''a'', ''a'', ''a'', ''a'', ''a'', ''a'', ''a'', ''a'', ''a'', ''a'']"

lemma layers_plain: "fillerLayers wordsPlain = ([(''you know'', 1)], 1)"
  by code_simp

lemma layers_more: "fillerLayers wordsMoreFiller = ([(''um'', 1)], 1)"
  by code_simp

lemma fold_pureStep_total: "snd (fold pureStep ws st) = snd st + pureFillerCount ws"
  by (induction ws arbitrary: st) (auto simp: pureStep_def pureFillerCount_def Let_def)

lemma fold_overuseStep_total: "snd st \<le> snd (fold (overuseStep thr fr) ps st)"
proof (induction ps arbitrary: st)
  case Nil
  show ?case by simp
next
  case (Cons a ps)
  have "snd st \<le> snd (overuseStep thr fr a st)" by (auto simp: overuseStep_def Let_def)
  also have "\<dots> \<le> snd (fold (overuseStep thr fr) ps (overuseStep thr fr a st))" by (rule Cons.IH)
  finally show ?case by simp
qed

lemma fold_patternStep_total: "snd st \<le> snd (fold (patternStep txt) ps st)"
proof (induction ps arbitrary: st)
  case Nil
  show ?case by simp
next
  case (Cons a ps)
  have "snd st \<le> snd (patternStep txt a st)" by (simp add: patternStep_def Let_def)
  also have "\<dots> \<le> snd (fold (patternStep txt) ps (patternStep txt a st))" by (rule Cons.IH)
  finally show ?case by simp
qed

lemma pure_le_total: "pureFillerCount ws \<le> totalFillerWords (analyzeFillerWords ws)"
proof -
  have "pureFillerCount ws = snd (fold pureStep ws ([], 0))" by (simp add: fold_pureStep_total)
  also have "\<dots> \<le> snd (fillerLayers ws)"
    unfolding fillerLayers_def Let_def
    by (rule order_trans[OF fold_overuseStep_total fold_patternStep_total])
  finally show ?thesis by (simp add: analyzeFillerWords_def Let_def)
qed

lemma fillerBand_antimono: "p \<le> q \<Longrightarrow> fst (fillerBand q) \<le> fst (fillerBand p)"
  by (simp add: fillerBand_def)

lemma ratio_mono:
  fixes t n k :: nat
  assumes "0 < n" "t \<le> n"
  shows "(of_nat t / of_nat n * 100 :: rat) \<le> of_nat (t + k) / of_nat (n + k) * 100"
proof -
  have "t * (n + k) \<le> (t + k) * n" using assms by (simp add: algebra_simps)
  then have "(of_nat (t * (n + k)) :: rat) \<le> of_nat ((t + k) * n)" by (simp only: of_nat_le_iff)
  then have "(of_nat t * of_nat (n + k) :: rat) \<le> of_nat (t + k) * of_nat n" by simp
  then have "(of_nat t / of_nat n :: rat) \<le> of_nat (t + k) / of_nat (n + k)"
    using assms by (simp add: frac_le_eq field_simps)
  then have "(of_nat t / of_nat n :: rat) * 100 \<le> of_nat (t + k) / of_nat (n + k) * 100"
    by (rule mult_right_mono) simp
  then show ?thesis .
qed

text \<open>
  Claim C7, as the code has it. The band table is monotone: a higher percentage never
  gets a higher score. For two transcripts of which the second has \<open>k\<close> more tokens, all
  of them pure fillers, the percentage does not fall and the score does not rise provided
  the other two layers (overused discourse markers and hedge words, context patterns) count
  the same in both and the fillers counted in the first do not exceed its words.
\<close>

theorem filler_monotone_when_other_layers_fixed:
  "(\<forall>p q. p \<le> q \<longrightarrow> fst (fillerBand q) \<le> fst (fillerBand p)) \<and>
   (ws1 \<noteq> [] \<and> length ws2 = length ws1 + k \<and>
    pureFillerCount ws2 = pureFillerCount ws1 + k \<and>
    totalFillerWords (analyzeFillerWords ws2) - pureFillerCount ws2
      = totalFillerWords (analyzeFillerWords ws1) - pureFillerCount ws1 \<and>
    totalFillerWords (analyzeFillerWords ws1) \<le> length ws1
    \<longrightarrow> fillerWordPercentage (analyzeFillerWords ws1) \<le> fillerWordPercentage (analyzeFillerWords ws2) \<and>
        fillerWordScore (analyzeFillerWords ws2) \<le> fillerWordScore (analyzeFillerWords ws1))"
proof (intro conjI allI impI)
  fix p q :: rat
  assume "p \<le> q"
  then show "fst (fillerBand q) \<le> fst (fillerBand p)" by (rule fillerBand_antimono)
next
  assume a: "ws1 \<noteq> [] \<and> length ws2 = length ws1 + k \<and>
    pureFillerCount ws2 = pureFillerCount ws1 + k \<and>
    totalFillerWords (analyzeFillerWords ws2) - pureFillerCount ws2
      = totalFillerWords (analyzeFillerWords ws1) - pureFillerCount ws1 \<and>
    totalFillerWords (analyzeFillerWords ws1) \<le> length ws1"
  define t1 where "t1 = totalFillerWords (analyzeFillerWords ws1)"
  define t2 where "t2 = totalFillerWords (analyzeFillerWords ws2)"
  have t2: "t2 = t1 + k"
    using a pure_le_total[of ws1] pure_le_total[of ws2] unfolding t1_def t2_def by linarith
  have n: "0 < length ws1" "t1 \<le> length ws1" using a unfolding t1_def by simp_all
  have p1: "fillerWordPercentage (analyzeFillerWords ws1) = of_nat t1 / of_nat (length ws1) * 100"
    using n by (simp add: analyzeFillerWords_def Let_def t1_def)
  have p2: "fillerWordPercentage (analyzeFillerWords ws2) = of_nat (t1 + k) / of_nat (length ws1 + k) * 100"
    using n a t2 by (simp add: analyzeFillerWords_def Let_def t2_def)
  have le: "fillerWordPercentage (analyzeFillerWords ws1) \<le> fillerWordPercentage (analyzeFillerWords ws2)"
    unfolding p1 p2 by (rule ratio_mono[OF n])
  have s: "fillerWordScore (analyzeFillerWords ws) = fst (fillerBand (fillerWordPercentage (analyzeFillerWords ws)))" for ws
    by (simp add: analyzeFillerWords_def Let_def)
  show "fillerWordPercentage (analyzeFillerWords ws1) \<le> fillerWordPercentage (analyzeFillerWords ws2)"
    by (rule le)
  show "fillerWordScore (analyzeFillerWords ws2) \<le> fillerWordScore (analyzeFillerWords ws1)"
    unfolding s[of ws1] s[of ws2] by (rule fillerBand_antimono[OF le])
qed

text \<open>
  Claim C7 as stated fails. \<open>you know\<close> followed by twelve other words has one filler
  in 14 words (7.14 percent, score 2); with \<open>um\<close> put between \<open>you\<close> and \<open>know\<close> the
  pattern no longer matches, and there is one filler in 15 words (6.67 percent, score 4):
  the transcript with more pure fillers has the lower percentage and the higher score.
\<close>

theorem filler_monotone_counterexample:
  "wordsMoreFiller = take 1 wordsPlain @ [''um''] @ drop 1 wordsPlain \<and>
   fillerWordPercentage (analyzeFillerWords wordsPlain) = 50 / 7 \<and>
   fillerWordPercentage (analyzeFillerWords wordsMoreFiller) = 20 / 3 \<and>
   fillerWordScore (analyzeFillerWords wordsPlain) = 2 \<and>
   fillerWordScore (analyzeFillerWords wordsMoreFiller) = 4"
proof -
  have l: "length wordsPlain = 14" "length wordsMoreFiller = 15"
    by (simp_all add: wordsPlain_def wordsMoreFiller_def)
  have e: "wordsMoreFiller = take 1 wordsPlain @ [''um''] @ drop 1 wordsPlain"
    by (simp add: wordsPlain_def wordsMoreFiller_def)
  show ?thesis
    using e by (simp add: analyzeFillerWords_def Let_def layers_plain layers_more l fillerBand_def)
qed

text \<open>The theorem at a transcript of two words and the same with one \<open>um\<close> added.\<close>

definition wordsClean :: "string list" where
  "wordsClean = [''hello'', ''world'']"

definition wordsOneFiller :: "string list" where
  "wordsOneFiller = [''hello'', ''um'', ''world'']"

lemma layers_clean: "fillerLayers wordsClean = ([], 0)"
  by code_simp

lemma layers_one: "fillerLayers wordsOneFiller = ([(''um'', 1)], 1)"
  by code_simp

lemma pure_clean: "pureFillerCount wordsClean = 0"
  by code_simp

lemma pure_one: "pureFillerCount wordsOneFiller = 1"
  by code_simp

theorem filler_monotone_witness:
  "fst (fillerBand 5) \<le> fst (fillerBand 3) \<and>
   fillerWordPercentage (analyzeFillerWords wordsClean) \<le> fillerWordPercentage (analyzeFillerWords wordsOneFiller) \<and>
   fillerWordScore (analyzeFillerWords wordsOneFiller) \<le> fillerWordScore (analyzeFillerWords wordsClean)"
proof -
  have t: "totalFillerWords (analyzeFillerWords wordsClean) = 0"
    "totalFillerWords (analyzeFillerWords wordsOneFiller) = 1"
    by (simp_all add: analyzeFillerWords_def Let_def layers_clean layers_one)
  have l: "length wordsClean = 2" "length wordsOneFiller = 3" "wordsClean \<noteq> []"
    by (simp_all add: wordsClean_def wordsOneFiller_def)
  have h: "wordsClean \<noteq> [] \<and> length wordsOneFiller = length wordsClean + 1 \<and>
    pureFillerCount wordsOneFiller = pureFillerCount wordsClean + 1 \<and>
    totalFillerWords (analyzeFillerWords wordsOneFiller) - pureFillerCount wordsOneFiller
      = totalFillerWords (analyzeFillerWords wordsClean) - pureFillerCount wordsClean \<and>
    totalFillerWords (analyzeFillerWords wordsClean) \<le> length wordsClean"
    by (simp add: t l pure_clean pure_one)
  have b: "(3 :: rat) \<le> 5" by simp
  from filler_monotone_when_other_layers_fixed [of wordsClean wordsOneFiller 1] h b
  show ?thesis by blast
qed

section \<open>\<open>TranscriptionOrchestrator.removeFillerWords\<close>\<close>

definition digitChar :: "nat \<Rightarrow> char" where
  "digitChar d = char_of (48 + d)"

text \<open>A number converted to a string, as a template literal and \<open>replace\<close> do.\<close>

function showNat :: "nat \<Rightarrow> string" where
  "showNat n = (if n < 10 then [digitChar n] else showNat (n div 10) @ [digitChar (n mod 10)])"
  by pat_completeness auto
termination
  by (relation "measure id") auto

declare showNat.simps [simp del]

text \<open>
  \<open>replace\<close> calls a function replacement with the match, then the captured groups,
  then the offset of the match and then the whole string being searched. The callback
  of the second stage is \<open>(match, ...groups) => ...\<close>: its \<open>groups\<close> are all the
  arguments after the match.
\<close>

datatype jsValue = JsString string | JsNumber nat

fun orEmpty :: "jsValue \<Rightarrow> string" where
  "orEmpty (JsString t) = t"
| "orEmpty (JsNumber n) = (if n = 0 then [] else showNat n)"

fun renderFn ::
  "(string \<Rightarrow> jsValue list \<Rightarrow> string) \<Rightarrow> (string \<Rightarrow> string list) \<Rightarrow> string \<Rightarrow> nat \<Rightarrow> piece list \<Rightarrow> string"
where
  "renderFn cb capsOf subject off [] = []"
| "renderFn cb capsOf subject off (Keep c # ps) = c # renderFn cb capsOf subject (off + 1) ps"
| "renderFn cb capsOf subject off (Match m # ps) =
     cb m (map JsString (capsOf m) @ [JsNumber off, JsString subject]) @
     renderFn cb capsOf subject (off + length m) ps"

definition jsReplaceFn ::
  "rx \<Rightarrow> (string \<Rightarrow> string list) \<Rightarrow> (string \<Rightarrow> jsValue list \<Rightarrow> string) \<Rightarrow> string \<Rightarrow> string" where
  "jsReplaceFn re capsOf cb s = renderFn cb capsOf s 0 (jsScan re None s)"

definition pureFillers :: "string list" where
  "pureFillers = [''um'', ''uh'', ''ah'', ''er'', ''eh'', ''hmm'', ''mm'', ''mhm'', ''uhm'']"

text \<open>
  The patterns of the second stage, each with the text of its captured groups as a
  function of the match: the group after a literal of \<open>k\<close> characters and the white
  space behind it, the group that is the first word of the match, or no group.
\<close>

definition groupAfter :: "nat \<Rightarrow> string \<Rightarrow> string list" where
  "groupAfter k m = [dropWhile isSpace (drop k m)]"

definition groupFirst :: "string \<Rightarrow> string list" where
  "groupFirst m = [takeWhile (\<lambda>c. \<not> isSpace c) m]"

definition noGroups :: "string \<Rightarrow> string list" where
  "noGroups m = []"

definition fillerPatterns :: "(rx \<times> (string \<Rightarrow> string list)) list" where
  "fillerPatterns =
     [(seqs [WordB, Lit ''like'', wsPlus,
             alts [''um'', ''uh'', ''ah'', ''er'', ''and then'', ''when i'', ''so i''], WordB], groupAfter 4),
      (seqs [WordB, alts [''um'', ''uh'', ''ah'', ''er'', ''like'', ''well''], wsPlus, Lit ''so'', WordB],
       groupFirst),
      (seqs [WordB, Lit ''so'', wsPlus, alts [''um'', ''uh'', ''ah'', ''er''], WordB], groupAfter 2),
      (wordRx ''you know'', noGroups),
      (wordRx ''i mean'', noGroups),
      (wordRx ''let me think'', noGroups),
      (wordRx ''how do i say'', noGroups),
      (wordRx ''what do you call it'', noGroups),
      (seqs [WordB, Lit ''sort of'', wsPlus, alts [''like'', ''um'', ''uh''], WordB], groupAfter 7),
      (seqs [WordB, Lit ''kind of'', wsPlus, alts [''like'', ''um'', ''uh''], WordB], groupAfter 7)]"

text \<open>
  The callback of the second stage:
  \<open>if (groups.length > 0) return groups[groups.length - 1] || ''; return ''\<close>.
\<close>

definition keepLastGroup :: "string \<Rightarrow> jsValue list \<Rightarrow> string" where
  "keepLastGroup m groups =
     (if length groups > 0 then orEmpty (groups ! (length groups - 1)) else [])"

definition discourseMarkers :: "string list" where
  "discourseMarkers = [''well'', ''okay'', ''right'', ''actually'', ''basically'']"

text \<open>
  The callback of the third stage reads and decrements the variable \<open>removeCount\<close>:
  the variable is passed along the matches.
\<close>

fun renderCounted :: "nat \<Rightarrow> piece list \<Rightarrow> string" where
  "renderCounted removeCount [] = []"
| "renderCounted removeCount (Keep c # ps) = c # renderCounted removeCount ps"
| "renderCounted removeCount (Match m # ps) =
     (if removeCount > 0 then renderCounted (removeCount - 1) ps
      else m @ renderCounted removeCount ps)"

definition stripMarker :: "string \<Rightarrow> string \<Rightarrow> string" where
  "stripMarker marker cleanText =
     (let globalRegex = wordRx marker;
          matches = jsMatch globalRegex cleanText
      in if length matches > 4
         then renderCounted (length matches - 2) (jsScan globalRegex None cleanText)
         else cleanText)"

definition trim :: "string \<Rightarrow> string" where
  "trim s = rev (dropWhile isSpace (rev (dropWhile isSpace s)))"

definition cleanupSpacing :: "string \<Rightarrow> string" where
  "cleanupSpacing s =
     trim
       (jsReplace (seqs [Bol, Star Space, Cls Punct, Star Space]) (\<lambda>m. [])
         (jsReplace (seqs [Cls Punct, Star Space, Cls Punct]) (\<lambda>m. [hd m, last m])
           (jsReplace (Seq wsPlus (Cls Punct)) (\<lambda>m. [last m])
             (jsReplace wsPlus (\<lambda>m. '' '') s))))"

definition removeFillerWords :: "string \<Rightarrow> string" where
  "removeFillerWords text =
     (let t1 = fold (\<lambda>filler t. jsReplace (wordRx filler) (\<lambda>m. []) t) pureFillers text;
          t2 = fold (\<lambda>pat t. jsReplaceFn (fst pat) (snd pat) keepLastGroup t) fillerPatterns t1;
          t3 = fold stripMarker discourseMarkers t2
      in cleanupSpacing t3)"

subsection \<open>The scan cuts the input into pieces\<close>

lemma stripLit_split:
  "stripLit l acc s = Some (acc', r) \<Longrightarrow> \<exists>m. s = m @ r \<and> acc' = rev m @ acc"
proof (induction l acc s rule: stripLit.induct)
  case (1 acc s)
  then show ?case by simp
next
  case (2 c cs acc)
  then show ?case by simp
next
  case (3 c cs acc x xs)
  then have eq: "toLowerChar x = toLowerChar c" and rec: "stripLit cs (x # acc) xs = Some (acc', r)"
    by (auto split: if_splits)
  from "3.IH"[OF eq rec] obtain m where "xs = m @ r" "acc' = rev m @ x # acc" by blast
  then have "x # xs = (x # m) @ r \<and> acc' = rev (x # m) @ acc" by simp
  then show ?case by blast
qed

lemma starStates_split:
  "(acc', r) \<in> set (starStates k acc s) \<Longrightarrow> \<exists>m. s = m @ r \<and> acc' = rev m @ acc"
proof (induction k acc s rule: starStates.induct)
  case (1 k acc)
  then show ?case by simp
next
  case (2 k acc x xs)
  show ?case
  proof (cases "(acc', r) = (acc, x # xs)")
    case True
    then have "x # xs = [] @ r \<and> acc' = rev [] @ acc" by simp
    then show ?thesis by blast
  next
    case False
    with "2.prems" have c: "inClass k x" and mem: "(acc', r) \<in> set (starStates k (x # acc) xs)"
      by (auto split: if_splits)
    from "2.IH"[OF c mem] obtain m where "xs = m @ r" "acc' = rev m @ x # acc" by blast
    then have "x # xs = (x # m) @ r \<and> acc' = rev (x # m) @ acc" by simp
    then show ?thesis by blast
  qed
qed

lemma rxm_split:
  "(acc', r) \<in> set (rxm re p (acc, s)) \<Longrightarrow> \<exists>m. s = m @ r \<and> acc' = rev m @ acc"
proof (induction re arbitrary: acc s acc' r)
  case (Lit l)
  then have "stripLit l acc s = Some (acc', r)" by (auto split: option.splits)
  then show ?case by (rule stripLit_split)
next
  case (Cls k)
  then obtain x where "s = x # r" "acc' = x # acc" by (auto split: list.splits if_splits)
  then have "s = [x] @ r \<and> acc' = rev [x] @ acc" by simp
  then show ?case by blast
next
  case (Star k)
  then show ?case by (auto dest: starStates_split)
next
  case (Seq a b)
  from Seq.prems obtain acc1 r1 where
    1: "(acc1, r1) \<in> set (rxm a p (acc, s))" and 2: "(acc', r) \<in> set (rxm b p (acc1, r1))"
    by auto
  from Seq.IH(1)[OF 1] obtain m1 where m1: "s = m1 @ r1" "acc1 = rev m1 @ acc" by blast
  from Seq.IH(2)[OF 2] obtain m2 where m2: "r1 = m2 @ r" "acc' = rev m2 @ acc1" by blast
  have "s = (m1 @ m2) @ r \<and> acc' = rev (m1 @ m2) @ acc" using m1 m2 by simp
  then show ?case by blast
next
  case (Alt a b)
  then show ?case by auto
next
  case WordB
  then have "s = [] @ r \<and> acc' = rev [] @ acc" by (auto split: if_splits)
  then show ?case by blast
next
  case Bol
  then have "s = [] @ r \<and> acc' = rev [] @ acc" by (auto split: if_splits)
  then show ?case by blast
next
  case (NotAhead a)
  then have "s = [] @ r \<and> acc' = rev [] @ acc" by (auto split: if_splits)
  then show ?case by blast
qed

lemma jsExec_split: "jsExec re p s = Some (m, r) \<Longrightarrow> s = m @ r"
proof -
  assume a: "jsExec re p s = Some (m, r)"
  then obtain acc rest where h: "rxm re p ([], s) = (acc, r) # rest" and m: "m = rev acc"
    by (auto simp: jsExec_def split: list.splits if_splits)
  then have "(acc, r) \<in> set (rxm re p ([], s))" by simp
  from rxm_split[OF this] m show ?thesis by auto
qed

lemma render_jsScan: "render (\<lambda>m. m) (jsScan re p s) = s"
proof (induction re p s rule: jsScan.induct)
  case (1 re p s)
  show ?case
  proof (cases "jsExec re p s")
    case None
    show ?thesis
    proof (cases s)
      case Nil
      then show ?thesis using None by (subst jsScan.simps) (simp add: render_def)
    next
      case (Cons x xs)
      from "1.IH"(1)[OF None Cons] have "render (\<lambda>m. m) (jsScan re (Some x) xs) = xs" .
      then show ?thesis using None Cons by (subst jsScan.simps) (simp add: render_def)
    qed
  next
    case (Some mr)
    obtain m r where mr: "mr = (m, r)" by (cases mr)
    from "1.IH"(2)[OF Some mr [symmetric]] have "render (\<lambda>m. m) (jsScan re (Some (last m)) r) = r" .
    moreover have "s = m @ r" using Some mr by (auto dest: jsExec_split)
    ultimately show ?thesis using Some mr by (subst jsScan.simps) (simp add: render_def)
  qed
qed

subsection \<open>The third stage: which occurrences of a marker are stripped\<close>

text \<open>
  The pieces of a scan rendered with a rule that says which matches to keep, by their
  number: \<open>keep j\<close> for match number \<open>j\<close>, counted from \<open>i\<close> on.
\<close>

fun renderIndexed :: "(nat \<Rightarrow> bool) \<Rightarrow> nat \<Rightarrow> piece list \<Rightarrow> string" where
  "renderIndexed keep i [] = []"
| "renderIndexed keep i (Keep c # ps) = c # renderIndexed keep i ps"
| "renderIndexed keep i (Match m # ps) = (if keep i then m else []) @ renderIndexed keep (i + 1) ps"

lemma renderIndexed_cong:
  "(\<And>j. i \<le> j \<Longrightarrow> keep j = keep' j) \<Longrightarrow> renderIndexed keep i ps = renderIndexed keep' i ps"
proof (induction ps arbitrary: i)
  case Nil
  show ?case by simp
next
  case (Cons pc ps)
  show ?case
  proof (cases pc)
    case (Keep c)
    then show ?thesis using Cons by simp
  next
    case (Match m)
    have "renderIndexed keep (i + 1) ps = renderIndexed keep' (i + 1) ps"
      by (rule Cons.IH) (simp add: Cons.prems)
    then show ?thesis using Match Cons.prems[of i] by simp
  qed
qed

lemma renderCounted_indexed: "renderCounted k ps = renderIndexed (\<lambda>j. i + k \<le> j) i ps"
proof (induction ps arbitrary: k i)
  case Nil
  show ?case by simp
next
  case (Cons pc ps)
  show ?case
  proof (cases pc)
    case (Keep c)
    then show ?thesis using Cons.IH[of k i] by simp
  next
    case (Match m)
    show ?thesis
    proof (cases "k > 0")
      case True
      have "renderCounted (k - 1) ps = renderIndexed (\<lambda>j. (i + 1) + (k - 1) \<le> j) (i + 1) ps"
        by (rule Cons.IH)
      also have "\<dots> = renderIndexed (\<lambda>j. i + k \<le> j) (i + 1) ps"
        using True by (intro renderIndexed_cong) auto
      finally show ?thesis using Match True by simp
    next
      case False
      have "renderCounted k ps = renderIndexed (\<lambda>j. (i + 1) + k \<le> j) (i + 1) ps"
        by (rule Cons.IH)
      also have "\<dots> = renderIndexed (\<lambda>j. i + k \<le> j) (i + 1) ps"
        using False by (intro renderIndexed_cong) auto
      finally show ?thesis using Match False by simp
    qed
  qed
qed

text \<open>
  Claim C9, as the code has it. Let the pattern \<open>\bmarker\b\<close> cut the text into its
  \<open>n\<close> occurrences of the marker and the characters between them. When \<open>n \<le> 4\<close> the third
  stage leaves the text alone. When \<open>n > 4\<close> it strips occurrence number \<open>j\<close> (from 0)
  exactly when \<open>j < n - 2\<close>: the first \<open>n - 2\<close> occurrences go, the last two stay.
\<close>

theorem stripMarker_keeps_last_two:
  "render (\<lambda>m. m) (jsScan (wordRx marker) None text) = text \<and>
   (length (jsMatch (wordRx marker) text) \<le> 4 \<longrightarrow> stripMarker marker text = text) \<and>
   (4 < length (jsMatch (wordRx marker) text) \<longrightarrow>
      stripMarker marker text =
        renderIndexed (\<lambda>j. length (jsMatch (wordRx marker) text) - 2 \<le> j) 0
          (jsScan (wordRx marker) None text))"
proof (intro conjI impI)
  show "render (\<lambda>m. m) (jsScan (wordRx marker) None text) = text" by (rule render_jsScan)
next
  assume "length (jsMatch (wordRx marker) text) \<le> 4"
  then show "stripMarker marker text = text" by (simp add: stripMarker_def Let_def)
next
  assume "4 < length (jsMatch (wordRx marker) text)"
  then have "stripMarker marker text =
      renderCounted (length (jsMatch (wordRx marker) text) - 2) (jsScan (wordRx marker) None text)"
    by (simp add: stripMarker_def Let_def)
  also have "\<dots> = renderIndexed (\<lambda>j. 0 + (length (jsMatch (wordRx marker) text) - 2) \<le> j) 0
          (jsScan (wordRx marker) None text)"
    by (rule renderCounted_indexed)
  finally show "stripMarker marker text =
        renderIndexed (\<lambda>j. length (jsMatch (wordRx marker) text) - 2 \<le> j) 0
          (jsScan (wordRx marker) None text)" by simp
qed

text \<open>The theorem at a text with five occurrences of \<open>well\<close>, and at one with three.\<close>

definition fiveWells :: string where
  "fiveWells = ''well a well b well c well d well e''"

definition threeWells :: string where
  "threeWells = ''well a well b well c''"

lemma fiveWells_scan:
  "jsScan (wordRx ''well'') None fiveWells =
     [Match ''well'', Keep CHR '' '', Keep CHR ''a'', Keep CHR '' '',
      Match ''well'', Keep CHR '' '', Keep CHR ''b'', Keep CHR '' '',
      Match ''well'', Keep CHR '' '', Keep CHR ''c'', Keep CHR '' '',
      Match ''well'', Keep CHR '' '', Keep CHR ''d'', Keep CHR '' '',
      Match ''well'', Keep CHR '' '', Keep CHR ''e'']"
  by code_simp

lemma threeWells_matches: "length (jsMatch (wordRx ''well'') threeWells) = 3"
  by code_simp

theorem stripMarker_keeps_last_two_witness:
  "stripMarker ''well'' fiveWells = '' a  b  c well d well e'' \<and>
   stripMarker ''well'' threeWells = threeWells"
proof -
  have n: "length (jsMatch (wordRx ''well'') fiveWells) = 5"
    by (simp add: jsMatch_def matchesOf_def fiveWells_scan)
  have "stripMarker ''well'' fiveWells =
          renderIndexed (\<lambda>j. length (jsMatch (wordRx ''well'') fiveWells) - 2 \<le> j) 0
            (jsScan (wordRx ''well'') None fiveWells)"
    using stripMarker_keeps_last_two [of "''well''" fiveWells] n by simp
  then have 1: "stripMarker ''well'' fiveWells = '' a  b  c well d well e''"
    by (simp add: n fiveWells_scan)
  have 2: "stripMarker ''well'' threeWells = threeWells"
    using stripMarker_keeps_last_two [of "''well''" threeWells] threeWells_matches by simp
  show ?thesis using 1 2 by simp
qed

text \<open>
  Claim C9 as stated fails. Of five occurrences of \<open>well\<close> the first three are removed
  and the last two kept, not the first two; and of three occurrences, one more than the
  two that are kept, none is removed.
\<close>

theorem removeFillerWords_markers_counterexample:
  "removeFillerWords fiveWells = ''a b c well d well e'' \<and>
   removeFillerWords threeWells = threeWells"
  by code_simp

text \<open>
  Claim C2 fails on the code: the callback of the second stage returns the last of its
  arguments, which is the whole string being searched, not a captured group. The match
  \<open>you know\<close> is replaced by a copy of the whole text; the result is longer than the
  input and still holds the filler phrase.
\<close>

theorem removeFillerWords_copies_text:
  "removeFillerWords ''I you know go'' = ''I I you know go go''"
  by code_simp


section \<open>\<open>GeminiTranscriptionService\<close>\<close>

text \<open>
  The Gemini model is the external backend: \<open>generateContent\<close> takes the prompt, the
  MIME type and the audio, and throws or returns the transcribed text. Its answers may
  change from call to call, so it also takes the number of calls made before; that
  number is the state the service passes along. Only the field \<open>text\<close> of a
  transcription result is read by the orchestrator, and a result is modelled by it.
\<close>

type_synonym gemini = "nat \<Rightarrow> string \<Rightarrow> string \<Rightarrow> buffer \<Rightarrow> jsError + string"

record TranscriptionConfig =
  cfg_language :: "string option"
  cfg_includeTimestamps :: "bool option"
  cfg_removeFillerWords :: "bool option"
  cfg_chunkDuration :: "rat option"
  cfg_maxRetries :: "int option"

definition truthy :: "bool option \<Rightarrow> bool" where
  "truthy b = (b = Some True)"

definition maxSize :: nat where
  "maxSize = 20 * 1024 * 1024"

definition bytesOf :: "string \<Rightarrow> buffer" where
  "bytesOf s = map (\<lambda>c. of_nat (charCode c)) s"

definition extensionOf :: "string \<Rightarrow> string" where
  "extensionOf name = rev (takeWhile (\<lambda>c. c \<noteq> CHR ''.'') (rev (toLowerCase name)))"

fun bytesInclude :: "buffer \<Rightarrow> buffer \<Rightarrow> bool" where
  "bytesInclude [] sub = (sub = [])"
| "bytesInclude (x # xs) sub = (take (length sub) (x # xs) = sub \<or> bytesInclude xs sub)"

definition detectMimeFromBuffer :: "buffer \<Rightarrow> string" where
  "detectMimeFromBuffer b =
     (if length b < 12 then ''audio/wav''
      else let header = take 12 b in
        if take 4 header = bytesOf ''RIFF'' \<and> drop 8 header = bytesOf ''WAVE'' then ''audio/wav''
        else if header ! 0 = 0xFF \<and> (header ! 1) AND 0xE0 = 0xE0 then ''audio/mpeg''
        else if take 4 (drop 4 header) = bytesOf ''ftyp'' then
          (let subtype = drop 8 header in
           if bytesInclude subtype (bytesOf ''M4A'') \<or> bytesInclude subtype (bytesOf ''mp41'')
           then ''audio/mp4'' else ''video/mp4'')
        else if take 4 header = bytesOf ''OggS'' then ''audio/ogg''
        else if take 4 header = bytesOf ''fLaC'' then ''audio/flac''
        else ''audio/wav'')"

definition detectMimeType :: "string \<Rightarrow> buffer \<Rightarrow> string" where
  "detectMimeType name b =
     (let extension = extensionOf name in
      if extension = ''wav'' then ''audio/wav''
      else if extension = ''mp3'' then ''audio/mpeg''
      else if extension = ''mp4'' then ''video/mp4''
      else if extension = ''m4a'' then ''audio/mp4''
      else if extension = ''aac'' then ''audio/aac''
      else if extension = ''ogg'' then ''audio/ogg''
      else if extension = ''flac'' then ''audio/flac''
      else if extension = ''webm'' then ''audio/webm''
      else if extension = ''avi'' then ''video/x-msvideo''
      else if extension = ''mov'' then ''video/quicktime''
      else if extension = ''mkv'' then ''video/x-matroska''
      else if extension = ''wmv'' then ''video/x-ms-wmv''
      else detectMimeFromBuffer b)"

definition isGeminiSupportedFormat :: "string \<Rightarrow> bool" where
  "isGeminiSupportedFormat mimeType =
     (mimeType \<in> set [''audio/wav'', ''audio/mpeg'', ''audio/aac'', ''audio/ogg'', ''audio/flac'',
                       ''audio/mp4'', ''video/mp4'', ''video/mpeg'', ''video/quicktime'',
                       ''video/x-msvideo'', ''video/webm''])"

definition buildPrompt :: "TranscriptionConfig \<Rightarrow> string" where
  "buildPrompt config =
     ''Transcribe the audio content from this file. Provide an accurate word-for-word transcription.'' @
     (case cfg_language config of
        None \<Rightarrow> []
      | Some language \<Rightarrow>
          if language \<noteq> [] \<and> language \<noteq> ''auto''
          then '' The spoken language is '' @ language @ ''.'' else []) @
     (if truthy (cfg_includeTimestamps config)
      then '' Include timestamps in the format [MM:SS] where possible.'' else []) @
     '' Rules:'' @
     '' - Provide only the transcribed text'' @
     '' - Use proper punctuation and capitalization'' @
     '' - Do not include any commentary, analysis, or explanations'' @
     '' - If multiple speakers, distinguish them with labels like '' @
       [CHR 0x22] @ ''Speaker 1:'' @ [CHR 0x22] @ '', '' @ [CHR 0x22] @ ''Speaker 2:'' @ [CHR 0x22] @ '', etc.'' @
     '' - If audio is unclear, use [inaudible] for unclear portions''"

definition transcriptionFailed :: "string \<Rightarrow> jsError" where
  "transcriptionFailed msg = Error (''Transcription failed: '' @ msg)"

definition transcribe :: "gemini \<Rightarrow> nat \<Rightarrow> buffer \<Rightarrow> string \<Rightarrow> TranscriptionConfig \<Rightarrow> jsError + string" where
  "transcribe gm calls audioBuffer name config =
     (if length audioBuffer > maxSize then
        Inl (transcriptionFailed (''Audio file too large: '' @ showNat (length audioBuffer) @
               '' bytes (max: '' @ showNat maxSize @ '' bytes)''))
      else
        (let mimeType = detectMimeType name audioBuffer in
         if \<not> isGeminiSupportedFormat mimeType then
           Inl (transcriptionFailed (''Unsupported file format: '' @ mimeType @
                  ''. Supported formats: WAV, MP3, AAC, OGG, FLAC, MP4, MOV, AVI, WebM''))
         else
           (case gm calls (buildPrompt config) mimeType audioBuffer of
              Inl (Error msg) \<Rightarrow> Inl (transcriptionFailed msg)
            | Inr text \<Rightarrow> Inr text)))"

text \<open>
  \<open>transcribeWithRetry\<close>: the loop \<open>for (attempt = 1; attempt <= maxRetries; attempt++)\<close>.
  The state is the last error and the number of backend calls; the wait between two
  attempts takes time and changes nothing else. The backend is called only when the
  audio and its format pass the checks of \<open>transcribe\<close>.
\<close>

definition callsAfter :: "nat \<Rightarrow> buffer \<Rightarrow> string \<Rightarrow> nat" where
  "callsAfter calls audioBuffer name =
     (if length audioBuffer > maxSize \<or> \<not> isGeminiSupportedFormat (detectMimeType name audioBuffer)
      then calls else calls + 1)"

function retryLoop ::
  "gemini \<Rightarrow> int \<Rightarrow> int \<Rightarrow> jsError option \<Rightarrow> nat \<Rightarrow> buffer \<Rightarrow> string \<Rightarrow> TranscriptionConfig
     \<Rightarrow> (jsError + string) \<times> nat"
where
  "retryLoop gm maxRetries attempt lastError calls audioBuffer name config =
     (if attempt \<le> maxRetries then
        (case transcribe gm calls audioBuffer name config of
           Inr text \<Rightarrow> (Inr text, callsAfter calls audioBuffer name)
         | Inl e \<Rightarrow>
             retryLoop gm maxRetries (attempt + 1) (Some e) (callsAfter calls audioBuffer name)
               audioBuffer name config)
      else
        (Inl (case lastError of Some e \<Rightarrow> e | None \<Rightarrow> Error ''All transcription attempts failed''),
         calls))"
  by pat_completeness auto
termination
  by (relation "measure (\<lambda>(gm, maxRetries, attempt, rest). nat (maxRetries + 1 - attempt))") auto

declare retryLoop.simps [simp del]

definition transcribeWithRetry ::
  "gemini \<Rightarrow> nat \<Rightarrow> buffer \<Rightarrow> string \<Rightarrow> TranscriptionConfig \<Rightarrow> (jsError + string) \<times> nat" where
  "transcribeWithRetry gm calls audioBuffer name config =
     (let maxRetries = (case cfg_maxRetries config of None \<Rightarrow> 3 | Some n \<Rightarrow> if n = 0 then 3 else n)
      in retryLoop gm maxRetries 1 None calls audioBuffer name config)"

section \<open>\<open>TranscriptionOrchestrator\<close>\<close>

record TranscriptionApiResponse =
  r_success :: bool
  r_transcription :: string
  r_rawTranscription :: "string option"
  r_fileName :: string
  r_duration :: "rat option"
  r_analytics :: "SpeechAnalytics option"
  r_fillerWordsRemoved :: "bool option"
  r_error :: "string option"

text \<open>The object of the \<open>catch\<close> block; every error of the model is an \<open>Error\<close>.\<close>

definition failureResponse :: "string \<Rightarrow> jsError \<Rightarrow> TranscriptionApiResponse" where
  "failureResponse name e =
     \<lparr> r_success = False, r_transcription = [], r_rawTranscription = None, r_fileName = name,
       r_duration = None, r_analytics = None, r_fillerWordsRemoved = None,
       r_error = Some (case e of Error msg \<Rightarrow> msg) \<rparr>"

definition chunkFileName :: "string \<Rightarrow> nat \<Rightarrow> string" where
  "chunkFileName name i = name @ ''_chunk_'' @ showNat (i + 1)"

definition failedPlaceholder :: "nat \<Rightarrow> string" where
  "failedPlaceholder i = ''[Chunk '' @ showNat (i + 1) @ '' transcription failed]''"

definition tooLargePlaceholder :: "nat \<Rightarrow> string" where
  "tooLargePlaceholder i = ''[Chunk '' @ showNat (i + 1) @ '' too large to process] ''"

text \<open>
  The chunk loop of \<open>processLargeFile\<close>, with its \<open>try\<close> and \<open>catch\<close> around each chunk.
\<close>

fun largeFileLoop ::
  "gemini \<Rightarrow> string \<Rightarrow> TranscriptionConfig \<Rightarrow> nat \<Rightarrow> buffer list \<Rightarrow> string list \<Rightarrow> nat
     \<Rightarrow> string list \<times> nat"
where
  "largeFileLoop gm name config i [] chunkResults calls = (chunkResults, calls)"
| "largeFileLoop gm name config i (chunk # rest) chunkResults calls =
     (case transcribeWithRetry gm calls chunk (chunkFileName name i) config of
        (Inr text, calls') \<Rightarrow>
          largeFileLoop gm name config (i + 1) rest (chunkResults @ [text]) calls'
      | (Inl e, calls') \<Rightarrow>
          largeFileLoop gm name config (i + 1) rest (chunkResults @ [failedPlaceholder i]) calls')"

definition processLargeFile ::
  "ffmpeg \<Rightarrow> gemini \<Rightarrow> buffer \<Rightarrow> string \<Rightarrow> TranscriptionConfig \<Rightarrow> rat \<Rightarrow> (jsError + string) option" where
  "processLargeFile ff gm audioBuffer name config chunkDurationMinutes =
     (case splitAudio ff audioBuffer name chunkDurationMinutes of
        None \<Rightarrow> None
      | Some (Inl e) \<Rightarrow> Some (Inl e)
      | Some (Inr chunks) \<Rightarrow>
          Some (Inr (joinWith '' '' (fst (largeFileLoop gm name config 0 chunks [] 0)))))"

text \<open>
  The chunk loop of the branch of \<open>processFile\<close> for audio above the size limit: no
  \<open>try\<close> around a chunk, so an error leaves the loop.
\<close>

fun oversizeLoop ::
  "gemini \<Rightarrow> string \<Rightarrow> TranscriptionConfig \<Rightarrow> nat \<Rightarrow> buffer list \<Rightarrow> string \<Rightarrow> nat \<Rightarrow> jsError + string"
where
  "oversizeLoop gm name config i [] transcriptionText calls = Inr transcriptionText"
| "oversizeLoop gm name config i (chunk # rest) transcriptionText calls =
     (if length chunk > maxSize then
        oversizeLoop gm name config (i + 1) rest (transcriptionText @ tooLargePlaceholder i) calls
      else
        (case transcribeWithRetry gm calls chunk (chunkFileName name i) config of
           (Inl e, calls') \<Rightarrow> Inl e
         | (Inr text, calls') \<Rightarrow>
             oversizeLoop gm name config (i + 1) rest
               (transcriptionText @ (if i > 0 then '' '' else []) @ text) calls'))"

text \<open>The chunk loop of \<open>processFileWithProgress\<close>, also without a \<open>try\<close>.\<close>

fun progressLoop ::
  "gemini \<Rightarrow> string \<Rightarrow> TranscriptionConfig \<Rightarrow> nat \<Rightarrow> buffer list \<Rightarrow> string \<Rightarrow> nat \<Rightarrow> jsError + string"
where
  "progressLoop gm name config i [] transcriptionText calls = Inr transcriptionText"
| "progressLoop gm name config i (chunk # rest) transcriptionText calls =
     (case transcribeWithRetry gm calls chunk (chunkFileName name i) config of
        (Inl e, calls') \<Rightarrow> Inl e
      | (Inr text, calls') \<Rightarrow>
          progressLoop gm name config (i + 1) rest
            (transcriptionText @ (if i > 0 then '' '' else []) @ text) calls')"

text \<open>Steps 4 to 6 of \<open>processFile\<close>, shared with \<open>processFileWithProgress\<close>.\<close>

definition completeResponse ::
  "string \<Rightarrow> TranscriptionConfig \<Rightarrow> MediaInfo \<Rightarrow> string \<Rightarrow> TranscriptionApiResponse" where
  "completeResponse name config mediaInfo transcriptionText =
     (let durationMinutes = mi_duration mediaInfo / 60;
          analytics = analyzeSpeech transcriptionText durationMinutes;
          displayText = (if truthy (cfg_removeFillerWords config)
                         then removeFillerWords transcriptionText else transcriptionText)
      in \<lparr> r_success = True, r_transcription = displayText,
           r_rawTranscription = Some transcriptionText, r_fileName = name,
           r_duration = Some durationMinutes, r_analytics = Some analytics,
           r_fillerWordsRemoved = Some (truthy (cfg_removeFillerWords config)),
           r_error = None \<rparr>)"

text \<open>The object the branch for audio above the size limit returns.\<close>

definition earlyResponse :: "string \<Rightarrow> MediaInfo \<Rightarrow> string \<Rightarrow> TranscriptionApiResponse" where
  "earlyResponse name mediaInfo transcriptionText =
     \<lparr> r_success = True, r_transcription = transcriptionText, r_rawTranscription = None,
       r_fileName = name, r_duration = Some (mi_duration mediaInfo / 60),
       r_analytics = Some (analyzeSpeech transcriptionText (mi_duration mediaInfo / 60)),
       r_fillerWordsRemoved = None, r_error = None \<rparr>"

definition noAudioError :: jsError where
  "noAudioError = Error ''File does not contain audio that can be transcribed''"

text \<open>
  \<open>processFile\<close>. The whole body is inside \<open>try\<close>: every error becomes the failure
  object. \<open>None\<close> is "never returns" and can only come from \<open>splitAudio\<close>.
\<close>

definition processFile ::
  "ffmpeg \<Rightarrow> gemini \<Rightarrow> buffer \<Rightarrow> string \<Rightarrow> TranscriptionConfig \<Rightarrow> TranscriptionApiResponse option" where
  "processFile ff gm fileBuffer name config =
     (case getMediaInfo ff fileBuffer name of
        Inl e \<Rightarrow> Some (failureResponse name e)
      | Inr mediaInfo \<Rightarrow>
          if \<not> mi_hasAudio mediaInfo then Some (failureResponse name noAudioError)
          else
            (case (if mi_hasVideo mediaInfo then extractAudio ff fileBuffer name
                   else optimizeAudio ff fileBuffer name) of
               Inl e \<Rightarrow> Some (failureResponse name e)
             | Inr audioBuffer \<Rightarrow>
                 if length audioBuffer > maxSize then
                   (case splitAudio ff audioBuffer name 5 of
                      None \<Rightarrow> None
                    | Some (Inl e) \<Rightarrow> Some (failureResponse name e)
                    | Some (Inr chunks) \<Rightarrow>
                        (case oversizeLoop gm name config 0 chunks [] 0 of
                           Inl e \<Rightarrow> Some (failureResponse name e)
                         | Inr transcriptionText \<Rightarrow>
                             Some (earlyResponse name mediaInfo transcriptionText)))
                 else if mi_duration mediaInfo > 10 * 60 then
                   (case processLargeFile ff gm audioBuffer name config 10 of
                      None \<Rightarrow> None
                    | Some (Inl e) \<Rightarrow> Some (failureResponse name e)
                    | Some (Inr transcriptionText) \<Rightarrow>
                        Some (completeResponse name config mediaInfo transcriptionText))
                 else
                   (case fst (transcribeWithRetry gm 0 audioBuffer name config) of
                      Inl e \<Rightarrow> Some (failureResponse name e)
                    | Inr transcriptionText \<Rightarrow>
                        Some (completeResponse name config mediaInfo transcriptionText))))"

text \<open>
  \<open>processFileWithProgress\<close>. The progress callback is a side channel and is left out.
\<close>

definition processFileWithProgress ::
  "ffmpeg \<Rightarrow> gemini \<Rightarrow> buffer \<Rightarrow> string \<Rightarrow> TranscriptionConfig \<Rightarrow> TranscriptionApiResponse option" where
  "processFileWithProgress ff gm fileBuffer name config =
     (case getMediaInfo ff fileBuffer name of
        Inl e \<Rightarrow> Some (failureResponse name e)
      | Inr mediaInfo \<Rightarrow>
          if \<not> mi_hasAudio mediaInfo then Some (failureResponse name noAudioError)
          else
            (case (if mi_hasVideo mediaInfo then extractAudio ff fileBuffer name
                   else optimizeAudio ff fileBuffer name) of
               Inl e \<Rightarrow> Some (failureResponse name e)
             | Inr audioBuffer \<Rightarrow>
                 if mi_duration mediaInfo > 10 * 60 then
                   (case splitAudio ff audioBuffer name 10 of
                      None \<Rightarrow> None
                    | Some (Inl e) \<Rightarrow> Some (failureResponse name e)
                    | Some (Inr chunks) \<Rightarrow>
                        (case progressLoop gm name config 0 chunks [] 0 of
                           Inl e \<Rightarrow> Some (failureResponse name e)
                         | Inr transcriptionText \<Rightarrow>
                             Some (completeResponse name config mediaInfo transcriptionText)))
                 else
                   (case fst (transcribeWithRetry gm 0 audioBuffer name config) of
                      Inl e \<Rightarrow> Some (failureResponse name e)
                    | Inr transcriptionText \<Rightarrow>
                        Some (completeResponse name config mediaInfo transcriptionText))))"


subsection \<open>The orchestrator always returns\<close>


lemma complete_fields:
  "r_success (completeResponse n c mi T)"
  "r_duration (completeResponse n c mi T) = Some (mi_duration mi / 60)"
  "r_analytics (completeResponse n c mi T) = Some (analyzeSpeech T (mi_duration mi / 60))"
  "r_rawTranscription (completeResponse n c mi T) = Some T"
  "r_transcription (completeResponse n c mi T) =
     (if truthy (cfg_removeFillerWords c) then removeFillerWords T else T)"
  "r_fillerWordsRemoved (completeResponse n c mi T) = Some (truthy (cfg_removeFillerWords c))"
  "r_error (completeResponse n c mi T) = None"
  by (simp_all add: completeResponse_def Let_def)

lemma early_fields:
  "r_success (earlyResponse n mi T)"
  "r_duration (earlyResponse n mi T) = Some (mi_duration mi / 60)"
  "r_analytics (earlyResponse n mi T) = Some (analyzeSpeech T (mi_duration mi / 60))"
  "r_rawTranscription (earlyResponse n mi T) = None"
  "r_transcription (earlyResponse n mi T) = T"
  "r_fillerWordsRemoved (earlyResponse n mi T) = None"
  "r_error (earlyResponse n mi T) = None"
  by (simp_all add: earlyResponse_def)




subsection \<open>The flag \<open>removeFillerWords\<close> does not reach the transcription\<close>












subsection \<open>Reassembly of chunk texts\<close>

text \<open>
  What \<open>transcribeWithRetry\<close> returns for each chunk, in order: the backend calls made for
  one chunk are counted on for the next. And the text of the slot of chunk \<open>i\<close>: the text
  of the chunk, or the placeholder when its retries were exhausted.
\<close>

fun chunkOutcomes ::
  "gemini \<Rightarrow> string \<Rightarrow> TranscriptionConfig \<Rightarrow> nat \<Rightarrow> buffer list \<Rightarrow> nat \<Rightarrow> (jsError + string) list"
where
  "chunkOutcomes gm name config i [] calls = []"
| "chunkOutcomes gm name config i (chunk # rest) calls =
     fst (transcribeWithRetry gm calls chunk (chunkFileName name i) config) #
     chunkOutcomes gm name config (i + 1) rest
       (snd (transcribeWithRetry gm calls chunk (chunkFileName name i) config))"

definition slotText :: "nat \<Rightarrow> jsError + string \<Rightarrow> string" where
  "slotText i outcome = (case outcome of Inr text \<Rightarrow> text | Inl e \<Rightarrow> failedPlaceholder i)"

lemma chunkOutcomes_length: "length (chunkOutcomes gm n c i chunks k) = length chunks"
  by (induction chunks arbitrary: i k) simp_all

lemma slotText_simps:
  "slotText i (Inl e) = failedPlaceholder i"
  "slotText i (Inr text) = text"
  by (simp_all add: slotText_def)

lemma largeFileLoop_slots:
  "fst (largeFileLoop gm n c i chunks acc k) =
     acc @ map2 slotText [i..<i + length chunks] (chunkOutcomes gm n c i chunks k)"
proof (induction chunks arbitrary: i acc k)
  case Nil
  show ?case by simp
next
  case (Cons chunk rest)
  obtain out k' where t: "transcribeWithRetry gm k chunk (chunkFileName n i) c = (out, k')"
    by (cases "transcribeWithRetry gm k chunk (chunkFileName n i) c")
  have up: "[i..<Suc (i + length rest)] = i # [Suc i..<Suc (i + length rest)]"
    by (rule upt_conv_Cons) simp
  have co: "chunkOutcomes gm n c i (chunk # rest) k = out # chunkOutcomes gm n c (Suc i) rest k'"
    using t by simp
  have "fst (largeFileLoop gm n c i (chunk # rest) acc k)
          = fst (largeFileLoop gm n c (Suc i) rest (acc @ [slotText i out]) k')"
    using t by (cases out) (simp_all add: slotText_simps)
  also have "\<dots> = (acc @ [slotText i out]) @
        map2 slotText [Suc i..<Suc i + length rest] (chunkOutcomes gm n c (Suc i) rest k')"
    by (rule Cons.IH)
  also have "\<dots> = acc @ map2 slotText [i..<i + length (chunk # rest)]
                          (chunkOutcomes gm n c i (chunk # rest) k)"
    unfolding co by (simp add: up del: upt_Suc)
  finally show ?case .
qed

text \<open>
  Claim C3, as the code has it: on the chunked path of \<open>processFile\<close> for audio within the
  size limit (\<open>processLargeFile\<close>), every chunk is processed; the result joins one text
  per chunk with single spaces in index order, and the text of slot \<open>i\<close> is the chunk's
  transcription, or exactly the placeholder \<open>[Chunk i+1 transcription failed]\<close> when the
  retries of chunk \<open>i\<close> were exhausted.
\<close>

theorem processLargeFile_reassembly:
  assumes "getMediaInfo ff b n = Inr mi" and "mi_hasAudio mi"
    and "(if mi_hasVideo mi then extractAudio ff b n else optimizeAudio ff b n) = Inr audio"
    and "length audio \<le> maxSize" and "mi_duration mi > 10 * 60"
    and "splitAudio ff audio n 10 = Some (Inr chunks)"
  shows "processFile ff gm b n c =
           Some (completeResponse n c mi
                  (joinWith '' '' (map2 slotText [0..<length chunks] (chunkOutcomes gm n c 0 chunks 0)))) \<and>
         length (map2 slotText [0..<length chunks] (chunkOutcomes gm n c 0 chunks 0)) = length chunks \<and>
         (\<forall>i < length chunks.
            map2 slotText [0..<length chunks] (chunkOutcomes gm n c 0 chunks 0) ! i =
              (case chunkOutcomes gm n c 0 chunks 0 ! i of
                 Inr text \<Rightarrow> text
               | Inl e \<Rightarrow> ''[Chunk '' @ showNat (i + 1) @ '' transcription failed]''))"
proof (intro conjI allI impI)
  have "processLargeFile ff gm audio n c 10 =
          Some (Inr (joinWith '' '' (map2 slotText [0..<length chunks] (chunkOutcomes gm n c 0 chunks 0))))"
    using assms(6) largeFileLoop_slots[of gm n c 0 chunks "[]" 0]
    by (simp add: processLargeFile_def)
  then show "processFile ff gm b n c =
           Some (completeResponse n c mi
                  (joinWith '' '' (map2 slotText [0..<length chunks] (chunkOutcomes gm n c 0 chunks 0))))"
    using assms(1-5) by (simp add: processFile_def)
next
  show "length (map2 slotText [0..<length chunks] (chunkOutcomes gm n c 0 chunks 0)) = length chunks"
    by (simp add: chunkOutcomes_length)
next
  fix i assume "i < length chunks"
  then show "map2 slotText [0..<length chunks] (chunkOutcomes gm n c 0 chunks 0) ! i =
              (case chunkOutcomes gm n c 0 chunks 0 ! i of
                 Inr text \<Rightarrow> text
               | Inl e \<Rightarrow> ''[Chunk '' @ showNat (i + 1) @ '' transcription failed]'')"
    by (simp add: chunkOutcomes_length slotText_def failedPlaceholder_def split: sum.splits)
qed

text \<open>
  The example of the specification: three chunks of a 25-minute file, of which the
  second fails on every attempt.
\<close>

definition helloGemini :: gemini where
  "helloGemini calls prompt mimeType audio =
     (if audio = [10, 10] then Inl (Error ''quota exceeded'')
      else if audio = [0, 10] then Inr ''Hello world.''
      else Inr ''Goodbye now.'')"

definition defaultConfig :: TranscriptionConfig where
  "defaultConfig = \<lparr> cfg_language = None, cfg_includeTimestamps = None, cfg_removeFillerWords = None,
                     cfg_chunkDuration = None, cfg_maxRetries = None \<rparr>"

definition talkInfo :: MediaInfo where
  "talkInfo = \<lparr> mi_duration = 1500, mi_format = ''wav'', mi_hasAudio = True, mi_hasVideo = False \<rparr>"

lemma talk_chunk_names:
  "chunkFileName ''talk.wav'' 0 = ''talk.wav_chunk_1''"
  "chunkFileName ''talk.wav'' (Suc 0) = ''talk.wav_chunk_2''"
  "chunkFileName ''talk.wav'' (Suc (Suc 0)) = ''talk.wav_chunk_3''"
  by code_simp+

lemma talk_chunk_extensions:
  "extensionOf ''talk.wav_chunk_1'' = ''wav_chunk_1''"
  "extensionOf ''talk.wav_chunk_2'' = ''wav_chunk_2''"
  "extensionOf ''talk.wav_chunk_3'' = ''wav_chunk_3''"
  by code_simp+

lemma placeholder_2: "failedPlaceholder (Suc 0) = ''[Chunk 2 transcription failed]''"
  by code_simp

lemma short_chunk_mime:
  "length b < 12 \<Longrightarrow> detectMimeType ''talk.wav_chunk_1'' b = ''audio/wav''"
  "length b < 12 \<Longrightarrow> detectMimeType ''talk.wav_chunk_2'' b = ''audio/wav''"
  "length b < 12 \<Longrightarrow> detectMimeType ''talk.wav_chunk_3'' b = ''audio/wav''"
  by (simp_all add: detectMimeType_def detectMimeFromBuffer_def talk_chunk_extensions)

lemma wav_supported: "isGeminiSupportedFormat ''audio/wav''"
  by (simp add: isGeminiSupportedFormat_def)

lemma hello_chunk_1:
  "transcribeWithRetry helloGemini k [0, 10] ''talk.wav_chunk_1'' defaultConfig = (Inr ''Hello world.'', k + 1)"
  by (simp add: transcribeWithRetry_def retryLoop.simps transcribe_def callsAfter_def maxSize_def
      short_chunk_mime wav_supported helloGemini_def defaultConfig_def)

lemma hello_chunk_2:
  "transcribeWithRetry helloGemini k [10, 10] ''talk.wav_chunk_2'' defaultConfig
     = (Inl (Error ''Transcription failed: quota exceeded''), k + 3)"
  by (simp add: transcribeWithRetry_def retryLoop.simps transcribe_def callsAfter_def maxSize_def
      short_chunk_mime wav_supported helloGemini_def defaultConfig_def transcriptionFailed_def)

lemma hello_chunk_3:
  "transcribeWithRetry helloGemini k [20, 10] ''talk.wav_chunk_3'' defaultConfig = (Inr ''Goodbye now.'', k + 1)"
  by (simp add: transcribeWithRetry_def retryLoop.simps transcribe_def callsAfter_def maxSize_def
      short_chunk_mime wav_supported helloGemini_def defaultConfig_def)

lemma recordingEngine_fields:
  "getMediaInfo (recordingEngine D) b f =
     Inr \<lparr> mi_duration = D, mi_format = ''wav'', mi_hasAudio = True, mi_hasVideo = False \<rparr>"
  "optimizeAudio (recordingEngine D) b f = Inr b"
  by (simp_all add: recordingEngine_def)

lemma talk_split: "splitAudio (recordingEngine 1500) a n 10 = Some (Inr [[0, 10], [10, 10], [20, 10]])"
  by (simp add: splitAudio_def recordingEngine_def numChunksOf_def Math_ceil_def ceiling_rat_numeral_div
      splitLoop.simps)

lemma talk_outcomes:
  "chunkOutcomes helloGemini ''talk.wav'' defaultConfig 0 [[0, 10], [10, 10], [20, 10]] 0 =
     [Inr ''Hello world.'', Inl (Error ''Transcription failed: quota exceeded''), Inr ''Goodbye now.'']"
  by (simp add: talk_chunk_names hello_chunk_1 hello_chunk_2 hello_chunk_3)

lemma showNat_2: "showNat (Suc (Suc 0)) = ''2''"
  by code_simp

theorem processLargeFile_reassembly_witness:
  "processFile (recordingEngine 1500) helloGemini [] ''talk.wav'' defaultConfig =
     Some (completeResponse ''talk.wav'' defaultConfig talkInfo
            ''Hello world. [Chunk 2 transcription failed] Goodbye now.'') \<and>
   map2 slotText [0..<3]
     (chunkOutcomes helloGemini ''talk.wav'' defaultConfig 0 [[0, 10], [10, 10], [20, 10]] 0) ! 1
     = ''[Chunk 2 transcription failed]''"
proof -
  have 1: "getMediaInfo (recordingEngine 1500) [] ''talk.wav'' = Inr talkInfo"
    by (simp add: recordingEngine_def talkInfo_def)
  have 2: "mi_hasAudio talkInfo" by (simp add: talkInfo_def)
  have 3: "(if mi_hasVideo talkInfo then extractAudio (recordingEngine 1500) [] ''talk.wav''
            else optimizeAudio (recordingEngine 1500) [] ''talk.wav'') = Inr []"
    by (simp add: recordingEngine_def talkInfo_def)
  have 4: "length ([] :: buffer) \<le> maxSize" by simp
  have 5: "mi_duration talkInfo > 10 * 60" by (simp add: talkInfo_def)
  have 6: "splitAudio (recordingEngine 1500) [] ''talk.wav'' 10 = Some (Inr [[0, 10], [10, 10], [20, 10]])"
    by (rule talk_split)
  have u: "[0..<3] = [0, Suc 0, Suc (Suc 0)]" by (simp add: upt_rec)
  note inst = processLargeFile_reassembly [OF 1 2 3 4 5 6, of helloGemini defaultConfig]
  from inst [THEN conjunct1]
  have a: "processFile (recordingEngine 1500) helloGemini [] ''talk.wav'' defaultConfig =
     Some (completeResponse ''talk.wav'' defaultConfig talkInfo
            ''Hello world. [Chunk 2 transcription failed] Goodbye now.'')"
    by (simp add: talk_outcomes u slotText_simps placeholder_2 del: chunkOutcomes.simps)
  from inst [THEN conjunct2, THEN conjunct2, rule_format, of 1]
  have b: "map2 slotText [0..<3]
     (chunkOutcomes helloGemini ''talk.wav'' defaultConfig 0 [[0, 10], [10, 10], [20, 10]] 0) ! 1
     = ''[Chunk 2 transcription failed]''"
    by (simp add: talk_outcomes showNat_2 del: chunkOutcomes.simps upt_Suc)
  show ?thesis using a b by simp
qed

text \<open>
  Claim C3 as stated fails. For the chunks \<open>Hello world.\<close>, a failure and
  \<open>Goodbye now.\<close>, \<open>processFile\<close> puts \<open>[Chunk 2 transcription failed]\<close> into the second
  slot, not \<open>[segment 2 unavailable]\<close>; and \<open>processFileWithProgress\<close> on the same input
  does not go on past the failed chunk: it returns the failure object.
\<close>

theorem reassembly_counterexample:
  "map_option r_rawTranscription (processFile (recordingEngine 1500) helloGemini [] ''talk.wav'' defaultConfig)
     = Some (Some ''Hello world. [Chunk 2 transcription failed] Goodbye now.'') \<and>
   processFileWithProgress (recordingEngine 1500) helloGemini [] ''talk.wav'' defaultConfig
     = Some (failureResponse ''talk.wav'' (Error ''Transcription failed: quota exceeded''))"
proof -
  have l: "largeFileLoop helloGemini ''talk.wav'' defaultConfig 0 [[0, 10], [10, 10], [20, 10]] [] 0
     = ([''Hello world.'', ''[Chunk 2 transcription failed]'', ''Goodbye now.''], 5)"
    by (simp add: talk_chunk_names hello_chunk_1 hello_chunk_2 hello_chunk_3 placeholder_2)
  have p: "progressLoop helloGemini ''talk.wav'' defaultConfig 0 [[0, 10], [10, 10], [20, 10]] [] 0
     = Inl (Error ''Transcription failed: quota exceeded'')"
    by (simp add: talk_chunk_names hello_chunk_1 hello_chunk_2 hello_chunk_3)
  have 1: "map_option r_rawTranscription (processFile (recordingEngine 1500) helloGemini [] ''talk.wav'' defaultConfig)
     = Some (Some ''Hello world. [Chunk 2 transcription failed] Goodbye now.'')"
    by (simp add: processFile_def processLargeFile_def talk_split l complete_fields recordingEngine_fields
        del: largeFileLoop.simps)
  have 2: "processFileWithProgress (recordingEngine 1500) helloGemini [] ''talk.wav'' defaultConfig
     = Some (failureResponse ''talk.wav'' (Error ''Transcription failed: quota exceeded''))"
    by (simp add: processFileWithProgress_def talk_split p recordingEngine_fields del: progressLoop.simps)
  show ?thesis using 1 2 by simp
qed

subsection \<open>The branch for audio above the size limit\<close>

text \<open>
  An 8-minute recording whose optimized audio has one byte more than 20 MB. The engine
  cuts it into two chunks, and the backend transcribes them as \<open>um hello\<close> and \<open>world\<close>.
  The configuration asks for filler words to be removed.
\<close>

definition bigAudio :: buffer where
  "bigAudio = replicate 20971521 0"

definition bigInfo :: MediaInfo where
  "bigInfo = \<lparr> mi_duration = 480, mi_format = ''wav'', mi_hasAudio = True, mi_hasVideo = False \<rparr>"

definition oversizeEngine :: ffmpeg where
  "oversizeEngine =
     \<lparr> getMediaInfo = (\<lambda>b f. Inr bigInfo),
       extractAudio = (\<lambda>b f. Inr bigAudio),
       optimizeAudio = (\<lambda>b f. Inr bigAudio),
       writeInput = (\<lambda>b. True),
       execSplit = (\<lambda>b s d. Some [word_of_int (\<lfloor>s\<rfloor> div 60)]) \<rparr>"

definition umGemini :: gemini where
  "umGemini calls prompt mimeType audio = (if audio = [0] then Inr ''um hello'' else Inr ''world'')"

definition filterConfig :: TranscriptionConfig where
  "filterConfig = \<lparr> cfg_language = None, cfg_includeTimestamps = None, cfg_removeFillerWords = Some True,
                    cfg_chunkDuration = None, cfg_maxRetries = None \<rparr>"

lemma bigAudio_length: "length bigAudio = 20971521"
  by (simp add: bigAudio_def)

lemma big_chunk_names:
  "chunkFileName ''big.wav'' 0 = ''big.wav_chunk_1''"
  "chunkFileName ''big.wav'' (Suc 0) = ''big.wav_chunk_2''"
  by code_simp+

lemma big_chunk_extensions:
  "extensionOf ''big.wav_chunk_1'' = ''wav_chunk_1''"
  "extensionOf ''big.wav_chunk_2'' = ''wav_chunk_2''"
  by code_simp+

lemma big_chunk_mime:
  "length b < 12 \<Longrightarrow> detectMimeType ''big.wav_chunk_1'' b = ''audio/wav''"
  "length b < 12 \<Longrightarrow> detectMimeType ''big.wav_chunk_2'' b = ''audio/wav''"
  by (simp_all add: detectMimeType_def detectMimeFromBuffer_def big_chunk_extensions)

lemma oversizeEngine_fields:
  "getMediaInfo oversizeEngine b f = Inr bigInfo"
  "optimizeAudio oversizeEngine b f = Inr bigAudio"
  by (simp_all add: oversizeEngine_def)

lemma bigInfo_fields: "mi_hasAudio bigInfo" "\<not> mi_hasVideo bigInfo"
  by (simp_all add: bigInfo_def)

lemma big_split: "splitAudio oversizeEngine a n 5 = Some (Inr [[0], [5]])"
  by (simp add: splitAudio_def oversizeEngine_def bigInfo_def numChunksOf_def Math_ceil_def
      ceiling_rat_numeral_div splitLoop.simps)

lemma big_loop:
  "oversizeLoop umGemini ''big.wav'' filterConfig 0 [[0], [5]] [] 0 = Inr ''um hello world''"
  by (simp add: big_chunk_names transcribeWithRetry_def retryLoop.simps transcribe_def callsAfter_def
      maxSize_def big_chunk_mime wav_supported umGemini_def filterConfig_def)

text \<open>
  Claim C4 fails on the code. For audio above the size limit \<open>processFile\<close> returns a
  success object that has neither the raw transcription nor \<open>fillerWordsRemoved\<close>, and
  whose transcription still holds the filler word the configuration asked to remove:
  it is neither the full success object nor the failure object.
\<close>

theorem processFile_oversize_partial:
  "\<exists>r. processFile oversizeEngine umGemini [] ''big.wav'' filterConfig = Some r \<and>
       r_success r \<and> r_error r = None \<and> r_transcription r = ''um hello world'' \<and>
       r_rawTranscription r = None \<and> r_fillerWordsRemoved r = None \<and>
       truthy (cfg_removeFillerWords filterConfig)"
proof -
  have "processFile oversizeEngine umGemini [] ''big.wav'' filterConfig
          = Some (earlyResponse ''big.wav'' bigInfo ''um hello world'')"
    by (simp add: processFile_def big_split big_loop oversizeEngine_fields bigInfo_fields bigAudio_length
        maxSize_def del: oversizeLoop.simps)
  then show ?thesis by (simp add: early_fields truthy_def filterConfig_def)
qed


section \<open>\<open>SimpleDurationExtractor\<close>\<close>

text \<open>
  Reading a buffer. \<open>readUInt32LE\<close>, \<open>readUInt32BE\<close> and \<open>readUInt8\<close> throw a range
  error when the bytes asked for are not all inside the buffer: they return \<open>None\<close>
  then. \<open>toString('ascii', start, end)\<close> never throws: it cuts the range to the buffer
  and clears the highest bit of every byte; the result is kept as the list of the
  character codes.
\<close>

record MediaDurationInfo =
  md_duration :: int
  md_isEstimated :: bool

definition readUInt32LE :: "buffer \<Rightarrow> nat \<Rightarrow> nat option" where
  "readUInt32LE b off =
     (if off + 4 \<le> length b
      then Some (unat (b ! off) + 256 * unat (b ! (off + 1)) + 65536 * unat (b ! (off + 2)) +
                 16777216 * unat (b ! (off + 3)))
      else None)"

definition readUInt32BE :: "buffer \<Rightarrow> nat \<Rightarrow> nat option" where
  "readUInt32BE b off =
     (if off + 4 \<le> length b
      then Some (16777216 * unat (b ! off) + 65536 * unat (b ! (off + 1)) + 256 * unat (b ! (off + 2)) +
                 unat (b ! (off + 3)))
      else None)"

definition readUInt8 :: "buffer \<Rightarrow> nat \<Rightarrow> nat option" where
  "readUInt8 b off = (if off + 1 \<le> length b then Some (unat (b ! off)) else None)"

definition asciiSlice :: "buffer \<Rightarrow> nat \<Rightarrow> nat \<Rightarrow> buffer" where
  "asciiSlice b start stop = map (\<lambda>w. w AND 0x7F) (take (stop - start) (drop start b))"

definition rangeError :: jsError where
  "rangeError = Error ''The value of offset is out of range''"

text \<open>The estimate every fallback computes: \<open>Math.max(1, Math.round(buffer.length / rate))\<close>.\<close>

definition estimateBy :: "buffer \<Rightarrow> nat \<Rightarrow> MediaDurationInfo" where
  "estimateBy b rate =
     \<lparr> md_duration = max 1 (Math_round (of_nat (length b) / of_nat rate)), md_isEstimated = True \<rparr>"

subsection \<open>WAV\<close>

text \<open>
  The two loops of \<open>extractWavDuration\<close>. A loop returns \<open>Inl\<close> when a read throws,
  \<open>Inr (Some r)\<close> when the function returns \<open>r\<close> from inside the loop, and \<open>Inr None\<close>
  when the loop ends. Every round moves the offset forward by at least 8.
\<close>

function wavDataLoop :: "buffer \<Rightarrow> nat \<Rightarrow> nat \<Rightarrow> jsError + MediaDurationInfo option" where
  "wavDataLoop b byteRate dataOffset =
     (if dataOffset < length b - 8 then
        (case readUInt32LE b (dataOffset + 4) of
           None \<Rightarrow> Inl rangeError
         | Some dataSize \<Rightarrow>
             if asciiSlice b dataOffset (dataOffset + 4) = bytesOf ''data''
             then Inr (Some \<lparr> md_duration = Math_round (of_nat dataSize / of_nat byteRate),
                              md_isEstimated = False \<rparr>)
             else wavDataLoop b byteRate (dataOffset + (8 + dataSize)))
      else Inr None)"
  by pat_completeness auto
termination
  by (relation "measure (\<lambda>(b, byteRate, dataOffset). length b - dataOffset)") auto

declare wavDataLoop.simps [simp del]

function wavChunkLoop :: "buffer \<Rightarrow> nat \<Rightarrow> jsError + MediaDurationInfo option" where
  "wavChunkLoop b offset =
     (if offset < length b - 8 then
        (case readUInt32LE b (offset + 4) of
           None \<Rightarrow> Inl rangeError
         | Some chunkSize \<Rightarrow>
             if asciiSlice b offset (offset + 4) = bytesOf ''fmt '' then
               (case readUInt32LE b (offset + 12) of
                  None \<Rightarrow> Inl rangeError
                | Some sampleRate \<Rightarrow>
                    (case readUInt32LE b (offset + 16) of
                       None \<Rightarrow> Inl rangeError
                     | Some byteRate \<Rightarrow>
                         if sampleRate > 0 \<and> byteRate > 0 then
                           (case wavDataLoop b byteRate (offset + 8 + chunkSize) of
                              Inl e \<Rightarrow> Inl e
                            | Inr (Some r) \<Rightarrow> Inr (Some r)
                            | Inr None \<Rightarrow> wavChunkLoop b (offset + (8 + chunkSize)))
                         else wavChunkLoop b (offset + (8 + chunkSize))))
             else wavChunkLoop b (offset + (8 + chunkSize)))
      else Inr None)"
  by pat_completeness auto
termination
  by (relation "measure (\<lambda>(b, offset). length b - offset)") auto

declare wavChunkLoop.simps [simp del]

text \<open>The body of the \<open>try\<close> of \<open>extractWavDuration\<close>, and the function with its \<open>catch\<close>.\<close>

definition wavHeader :: "buffer \<Rightarrow> jsError + MediaDurationInfo" where
  "wavHeader b =
     (if length b < 44 then Inl (Error ''Invalid WAV file'')
      else if asciiSlice b 0 4 \<noteq> bytesOf ''RIFF'' then Inl (Error ''Not a RIFF file'')
      else if asciiSlice b 8 12 \<noteq> bytesOf ''WAVE'' then Inl (Error ''Not a WAVE file'')
      else
        (case wavChunkLoop b 12 of
           Inl e \<Rightarrow> Inl e
         | Inr (Some r) \<Rightarrow> Inr r
         | Inr None \<Rightarrow> Inl (Error ''Could not parse WAV duration'')))"

definition extractWavDuration :: "buffer \<Rightarrow> MediaDurationInfo" where
  "extractWavDuration b = (case wavHeader b of Inr r \<Rightarrow> r | Inl e \<Rightarrow> estimateBy b 176400)"

subsection \<open>MP3\<close>

text \<open>
  \<open>parseInt\<close> of a string with no radix given: white space is skipped, then an optional
  sign, then \<open>0x\<close> or \<open>0X\<close> selects base 16, and the longest run of digits is read;
  with no digit the result is \<open>NaN\<close>, here \<open>None\<close>.
\<close>

definition digitValue :: "char \<Rightarrow> nat option" where
  "digitValue c =
     (let n = charCode c in
      if 48 \<le> n \<and> n \<le> 57 then Some (n - 48)
      else if 97 \<le> n \<and> n \<le> 122 then Some (n - 87)
      else if 65 \<le> n \<and> n \<le> 90 then Some (n - 55)
      else None)"

fun readDigits :: "nat \<Rightarrow> string \<Rightarrow> nat option \<Rightarrow> nat option" where
  "readDigits radix [] acc = acc"
| "readDigits radix (c # cs) acc =
     (case digitValue c of
        None \<Rightarrow> acc
      | Some d \<Rightarrow>
          if d < radix
          then readDigits radix cs (Some ((case acc of None \<Rightarrow> 0 | Some a \<Rightarrow> a) * radix + d))
          else acc)"

definition parseInt :: "string \<Rightarrow> int option" where
  "parseInt s =
     (let t = dropWhile isSpace s;
          negative = (case t of c # _ \<Rightarrow> c = CHR ''-'' | [] \<Rightarrow> False);
          u = (case t of c # cs \<Rightarrow> if c = CHR ''-'' \<or> c = CHR ''+'' then cs else t | [] \<Rightarrow> t);
          hex = (take 2 u = ''0x'' \<or> take 2 u = ''0X'');
          digits = (if hex then readDigits 16 (drop 2 u) None else readDigits 10 u None)
      in case digits of
           None \<Rightarrow> None
         | Some n \<Rightarrow> Some (if negative then - int n else int n))"

definition charsOf :: "buffer \<Rightarrow> string" where
  "charsOf bs = map (\<lambda>w. char_of (unat w)) bs"

text \<open>The search for the \<open>TLEN\<close> frame: \<open>for (i = 10; i < bound; i++)\<close>.\<close>

function tlenLoop :: "buffer \<Rightarrow> nat \<Rightarrow> nat \<Rightarrow> jsError + MediaDurationInfo option" where
  "tlenLoop b bound i =
     (if i < bound then
        (if asciiSlice b i (i + 4) = bytesOf ''TLEN'' then
           (case readUInt32BE b (i + 4) of
              None \<Rightarrow> Inl rangeError
            | Some frameSize \<Rightarrow>
                if frameSize > 0 \<and> frameSize < 20 then
                  (case parseInt (charsOf (asciiSlice b (i + 11) (i + 11 + frameSize - 1))) of
                     None \<Rightarrow> tlenLoop b bound (i + 1)
                   | Some durationMs \<Rightarrow>
                       if durationMs > 0
                       then Inr (Some \<lparr> md_duration = Math_round (of_int durationMs / 1000),
                                        md_isEstimated = False \<rparr>)
                       else tlenLoop b bound (i + 1))
                else tlenLoop b bound (i + 1))
         else tlenLoop b bound (i + 1))
      else Inr None)"
  by pat_completeness auto
termination
  by (relation "measure (\<lambda>(b, bound, i). bound - i)") auto

declare tlenLoop.simps [simp del]

definition id3Size :: "buffer \<Rightarrow> nat" where
  "id3Size b =
     unat (push_bit 21 (ucast (b ! 6 AND 0x7F) :: 32 word) OR
           push_bit 14 (ucast (b ! 7 AND 0x7F) :: 32 word) OR
           push_bit 7 (ucast (b ! 8 AND 0x7F) :: 32 word) OR
           (ucast (b ! 9 AND 0x7F) :: 32 word))"

definition mp3Header :: "buffer \<Rightarrow> jsError + MediaDurationInfo option" where
  "mp3Header b =
     (if length b > 10 \<and> asciiSlice b 0 3 = bytesOf ''ID3''
      then tlenLoop b (min (id3Size b + 10) (length b - 10)) 10
      else Inr None)"

definition extractMp3Duration :: "buffer \<Rightarrow> MediaDurationInfo" where
  "extractMp3Duration b =
     (case mp3Header b of
        Inr (Some r) \<Rightarrow> r
      | Inr None \<Rightarrow> estimateBy b 16000
      | Inl e \<Rightarrow> estimateBy b 16000)"

subsection \<open>MP4 and M4A\<close>

text \<open>
  The walk over the atoms. The loop is left by \<open>break\<close> when the size of an atom is zero
  or larger than the rest of the buffer, so the offset grows in every round.
\<close>

definition mvhdDuration :: "buffer \<Rightarrow> nat \<Rightarrow> jsError + MediaDurationInfo option" where
  "mvhdDuration b offset =
     (case readUInt8 b (offset + 8) of
        None \<Rightarrow> Inl rangeError
      | Some version \<Rightarrow>
          (case (if version = 0 then readUInt32BE b (offset + 20) else readUInt32BE b (offset + 28)) of
             None \<Rightarrow> Inl rangeError
           | Some timeScale \<Rightarrow>
               (case (if version = 0 then readUInt32BE b (offset + 24) else readUInt32BE b (offset + 36)) of
                  None \<Rightarrow> Inl rangeError
                | Some duration \<Rightarrow>
                    if timeScale > 0
                    then Inr (Some \<lparr> md_duration = Math_round (of_nat duration / of_nat timeScale),
                                     md_isEstimated = False \<rparr>)
                    else Inr None)))"

function mp4AtomLoop :: "buffer \<Rightarrow> nat \<Rightarrow> jsError + MediaDurationInfo option" where
  "mp4AtomLoop b offset =
     (if offset < length b - 8 then
        (case readUInt32BE b offset of
           None \<Rightarrow> Inl rangeError
         | Some atomSize \<Rightarrow>
             (case (if asciiSlice b (offset + 4) (offset + 8) = bytesOf ''mvhd''
                    then mvhdDuration b offset else Inr None) of
                Inl e \<Rightarrow> Inl e
              | Inr (Some r) \<Rightarrow> Inr (Some r)
              | Inr None \<Rightarrow>
                  if atomSize = 0 \<or> atomSize > length b - offset then Inr None
                  else mp4AtomLoop b (offset + atomSize)))
      else Inr None)"
  by pat_completeness auto
termination
  by (relation "measure (\<lambda>(b, offset). length b - offset)") auto

declare mp4AtomLoop.simps [simp del]

definition mp4Header :: "buffer \<Rightarrow> jsError + MediaDurationInfo" where
  "mp4Header b =
     (case mp4AtomLoop b 0 of
        Inl e \<Rightarrow> Inl e
      | Inr (Some r) \<Rightarrow> Inr r
      | Inr None \<Rightarrow> Inl (Error ''Could not find mvhd atom''))"

definition extractMp4Duration :: "buffer \<Rightarrow> MediaDurationInfo" where
  "extractMp4Duration b = (case mp4Header b of Inr r \<Rightarrow> r | Inl e \<Rightarrow> estimateBy b 125000)"

subsection \<open>\<open>extractDuration\<close>\<close>

text \<open>
  The \<open>switch\<close> on the extension is the body of a \<open>try\<close>; its \<open>catch\<close> returns one
  minute, marked as an estimate.
\<close>

definition defaultDuration :: MediaDurationInfo where
  "defaultDuration = \<lparr> md_duration = 60, md_isEstimated = True \<rparr>"

definition catchDefault :: "jsError + MediaDurationInfo \<Rightarrow> MediaDurationInfo" where
  "catchDefault body = (case body of Inr r \<Rightarrow> r | Inl e \<Rightarrow> defaultDuration)"

definition durationSwitch :: "buffer \<Rightarrow> string \<Rightarrow> jsError + MediaDurationInfo" where
  "durationSwitch b name =
     (let extension = extensionOf name in
      if extension = ''wav'' then Inr (extractWavDuration b)
      else if extension = ''mp3'' then Inr (extractMp3Duration b)
      else if extension = ''mp4'' \<or> extension = ''m4a'' then Inr (extractMp4Duration b)
      else Inr (estimateBy b 32000))"

definition extractDuration :: "buffer \<Rightarrow> string \<Rightarrow> MediaDurationInfo" where
  "extractDuration b name = catchDefault (durationSwitch b name)"


subsection \<open>Well-formed WAV buffers\<close>

text \<open>
  A number as four bytes, least significant first; a chunk as its 4-character id, the
  size of its payload and the payload; and the \<open>fmt\<close> chunk with its sample rate at
  payload offset 4 and its byte rate at payload offset 8.
\<close>

definition le32 :: "nat \<Rightarrow> buffer" where
  "le32 n = [of_nat n, of_nat (n div 256), of_nat (n div 65536), of_nat (n div 16777216)]"

lemma le32_length [simp]: "length (le32 n) = 4"
  by (simp add: le32_def)

lemma bytesOf_length [simp]: "length (bytesOf s) = length s"
  by (simp add: bytesOf_def)

lemma byte_digits:
  fixes n :: nat
  assumes "n < 4294967296"
  shows "n mod 256 + 256 * (n div 256 mod 256) + 65536 * (n div 65536 mod 256) +
         16777216 * (n div 16777216 mod 256) = n"
proof -
  have a: "n div 16777216 mod 256 = n div 16777216" using assms by simp
  have b: "n div 65536 = (n div 256) div 256" by (simp add: div_mult2_eq)
  have c: "n div 16777216 = ((n div 256) div 256) div 256" by (simp add: div_mult2_eq)
  show ?thesis unfolding a unfolding b c
    using mod_mult_div_eq[of n 256] mod_mult_div_eq[of "n div 256" 256]
      mod_mult_div_eq[of "n div 256 div 256" 256]
    by linarith
qed

lemma readUInt32LE_le32:
  assumes "b = xs @ le32 n @ ys" and "off = length xs" and "n < 4294967296"
  shows "readUInt32LE b off = Some n"
proof -
  have u: "unat (of_nat k :: 8 word) = k mod 256" for k by (simp add: unat_of_nat)
  have nth: "b ! off = of_nat n" "b ! (off + 1) = of_nat (n div 256)"
    "b ! (off + 2) = of_nat (n div 65536)" "b ! (off + 3) = of_nat (n div 16777216)"
    using assms(1,2) by (simp_all add: nth_append le32_def)
  have len: "off + 4 \<le> length b" using assms(1,2) by simp
  have "readUInt32LE b off =
          Some (unat (b ! off) + 256 * unat (b ! (off + 1)) + 65536 * unat (b ! (off + 2)) +
                16777216 * unat (b ! (off + 3)))"
    using len by (simp only: readUInt32LE_def if_True)
  also have "\<dots> = Some (n mod 256 + 256 * (n div 256 mod 256) + 65536 * (n div 65536 mod 256) +
         16777216 * (n div 16777216 mod 256))"
    by (simp only: nth u)
  also have "\<dots> = Some n" by (simp only: byte_digits[OF assms(3)])
  finally show ?thesis .
qed

definition asciiId :: "string \<Rightarrow> bool" where
  "asciiId s = (length s = 4 \<and> list_all (\<lambda>c. charCode c < 128) s)"

lemma mask7: "k < 128 \<Longrightarrow> (of_nat k :: 8 word) AND 0x7F = of_nat k"
proof -
  assume k: "k < 128"
  have "(of_nat k :: 8 word) AND mask 7 = of_nat k"
    unfolding take_bit_eq_mask [symmetric]
    using k by (simp add: take_bit_of_nat take_bit_nat_eq_self)
  then show ?thesis by (simp add: mask_eq_exp_minus_1)
qed

lemma asciiSlice_id:
  assumes "b = xs @ bytesOf s @ ys" and "off = length xs" and "asciiId s"
  shows "asciiSlice b off (off + 4) = bytesOf s"
proof -
  have l: "length (bytesOf s) = 4" using assms(3) by (simp add: asciiId_def)
  have "take 4 (drop off b) = bytesOf s" using assms(1,2) l by simp
  moreover have "map (\<lambda>w. w AND 0x7F) (bytesOf s) = bytesOf s"
    using assms(3) unfolding asciiId_def bytesOf_def
    by (auto simp: list_all_iff mask7 intro!: map_idI)
  ultimately show ?thesis by (simp add: asciiSlice_def)
qed

lemma bytesOf_inj: "bytesOf s = bytesOf t \<Longrightarrow> s = t"
proof (induction s arbitrary: t)
  case Nil
  then show ?case by (simp add: bytesOf_def)
next
  case (Cons c s)
  then obtain d t' where t: "t = d # t'" by (cases t) (auto simp: bytesOf_def)
  from Cons.prems t have h: "(of_nat (charCode c) :: 8 word) = of_nat (charCode d)" and r: "bytesOf s = bytesOf t'"
    by (simp_all add: bytesOf_def)
  have "charCode c < 256" "charCode d < 256" by (simp_all add: charCode_def)
  moreover from h have "unat (of_nat (charCode c) :: 8 word) = unat (of_nat (charCode d) :: 8 word)"
    by simp
  ultimately have "charCode c = charCode d" by (simp add: unat_of_nat)
  then have "c = d" by (simp add: charCode_def)
  with Cons.IH[OF r] t show ?case by simp
qed

lemma ids: "asciiId ''RIFF''" "asciiId ''WAVE''" "asciiId ''fmt ''" "asciiId ''data''"
  by (simp_all add: asciiId_def charCode_def)

definition wavChunk :: "string \<times> buffer \<Rightarrow> buffer" where
  "wavChunk c = bytesOf (fst c) @ le32 (length (snd c)) @ snd c"

definition fmtChunk :: "buffer \<Rightarrow> nat \<Rightarrow> nat \<Rightarrow> buffer \<Rightarrow> buffer" where
  "fmtChunk h sampleRate byteRate ext =
     bytesOf ''fmt '' @ le32 (12 + length ext) @ h @ le32 sampleRate @ le32 byteRate @ ext"

definition dataChunk :: "nat \<Rightarrow> buffer \<Rightarrow> buffer" where
  "dataChunk dataSize rest = bytesOf ''data'' @ le32 dataSize @ rest"

text \<open>A chunk the walk steps over: an ASCII id other than the one looked for, and a
  payload whose size fits the 4-byte field.\<close>

definition plainChunk :: "string \<Rightarrow> string \<times> buffer \<Rightarrow> bool" where
  "plainChunk wanted c = (asciiId (fst c) \<and> fst c \<noteq> wanted \<and> length (snd c) < 4294967296)"

definition wavFile ::
  "nat \<Rightarrow> (string \<times> buffer) list \<Rightarrow> buffer \<Rightarrow> nat \<Rightarrow> nat \<Rightarrow> buffer \<Rightarrow> (string \<times> buffer) list
     \<Rightarrow> nat \<Rightarrow> buffer \<Rightarrow> buffer" where
  "wavFile riffSize pre h sampleRate byteRate ext mid dataSize rest =
     (bytesOf ''RIFF'' @ le32 riffSize @ bytesOf ''WAVE'') @
     concat (map wavChunk pre) @ fmtChunk h sampleRate byteRate ext @
     concat (map wavChunk mid) @ dataChunk dataSize rest"

lemma wavChunk_length: "asciiId (fst c) \<Longrightarrow> length (wavChunk c) = 8 + length (snd c)"
  by (simp add: wavChunk_def asciiId_def)

lemma wavDataLoop_data:
  assumes "dataSize < 4294967296" and "rest \<noteq> []"
  shows "wavDataLoop (xs @ dataChunk dataSize rest) br (length xs) =
           Inr (Some \<lparr> md_duration = Math_round (of_nat dataSize / of_nat br), md_isEstimated = False \<rparr>)"
proof -
  let ?b = "xs @ dataChunk dataSize rest"
  have len: "length ?b = length xs + 8 + length rest" by (simp add: dataChunk_def)
  have c: "length xs < length ?b - 8" using assms(2) unfolding len by (cases rest) simp_all
  have r: "readUInt32LE ?b (length xs + 4) = Some dataSize"
    by (rule readUInt32LE_le32[where xs = "xs @ bytesOf ''data''" and ys = rest])
       (simp_all add: dataChunk_def assms)
  have i: "asciiSlice ?b (length xs) (length xs + 4) = bytesOf ''data''"
    by (rule asciiSlice_id[where xs = xs and ys = "le32 dataSize @ rest"])
       (simp_all add: dataChunk_def ids)
  show ?thesis by (subst wavDataLoop.simps) (simp only: c r i if_True option.case simp_thms)
qed

lemma wavDataLoop_finds:
  assumes "list_all (plainChunk ''data'') mid" and "dataSize < 4294967296" and "rest \<noteq> []"
  shows "wavDataLoop (xs @ concat (map wavChunk mid) @ dataChunk dataSize rest) br (length xs) =
           Inr (Some \<lparr> md_duration = Math_round (of_nat dataSize / of_nat br), md_isEstimated = False \<rparr>)"
  using assms(1)
proof (induction mid arbitrary: xs)
  case Nil
  show ?case using wavDataLoop_data[OF assms(2,3), of xs br] by simp
next
  case (Cons c mid)
  from Cons.prems have pcc: "plainChunk ''data'' c" and rest': "list_all (plainChunk ''data'') mid"
    by simp_all
  from pcc have pc: "asciiId (fst c)" "fst c \<noteq> ''data''" "length (snd c) < 4294967296"
    by (simp_all add: plainChunk_def)
  let ?tail = "concat (map wavChunk mid) @ dataChunk dataSize rest"
  let ?b = "xs @ concat (map wavChunk (c # mid)) @ dataChunk dataSize rest"
  have b: "?b = xs @ wavChunk c @ ?tail" by simp
  have ext: "8 < length ?tail" using assms(3) by (cases rest) (simp_all add: dataChunk_def)
  have len: "length ?b = length xs + (8 + length (snd c)) + length ?tail"
    unfolding b by (simp add: wavChunk_length[OF pc(1)])
  have cnd: "length xs < length ?b - 8" using ext len by arith
  have r: "readUInt32LE ?b (length xs + 4) = Some (length (snd c))"
    by (rule readUInt32LE_le32[where xs = "xs @ bytesOf (fst c)" and ys = "snd c @ ?tail"])
       (use pc in \<open>simp_all add: wavChunk_def asciiId_def\<close>)
  have i: "asciiSlice ?b (length xs) (length xs + 4) = bytesOf (fst c)"
    by (rule asciiSlice_id[where xs = xs and ys = "le32 (length (snd c)) @ snd c @ ?tail"])
       (use pc in \<open>simp_all add: wavChunk_def\<close>)
  have ne: "bytesOf (fst c) \<noteq> bytesOf ''data''" using pc(2) bytesOf_inj by blast
  have nxt: "length xs + (8 + length (snd c)) = length (xs @ wavChunk c)"
    by (simp add: wavChunk_length[OF pc(1)])
  have b2: "?b = (xs @ wavChunk c) @ ?tail" by simp
  have "wavDataLoop ?b br (length xs) = wavDataLoop ?b br (length xs + (8 + length (snd c)))"
    by (subst wavDataLoop.simps) (simp only: cnd r i ne if_True if_False option.case simp_thms)
  also have "\<dots> = wavDataLoop ((xs @ wavChunk c) @ ?tail) br (length (xs @ wavChunk c))"
    unfolding nxt b2 ..
  also have "\<dots> = Inr (Some \<lparr> md_duration = Math_round (of_nat dataSize / of_nat br), md_isEstimated = False \<rparr>)"
    by (rule Cons.IH[OF rest'])
  finally show ?case .
qed

lemma wavChunkLoop_fmt:
  assumes "length h = 4" and "0 < sr" and "sr < 4294967296" and "0 < br" and "br < 4294967296"
    and "12 + length ext < 4294967296"
    and "list_all (plainChunk ''data'') mid" and "dataSize < 4294967296" and "rest \<noteq> []"
  shows "wavChunkLoop (xs @ fmtChunk h sr br ext @ concat (map wavChunk mid) @ dataChunk dataSize rest)
           (length xs) =
           Inr (Some \<lparr> md_duration = Math_round (of_nat dataSize / of_nat br), md_isEstimated = False \<rparr>)"
proof -
  let ?tail = "concat (map wavChunk mid) @ dataChunk dataSize rest"
  let ?b = "xs @ fmtChunk h sr br ext @ ?tail"
  have tlen: "8 < length ?tail" using assms(9) by (cases rest) (simp_all add: dataChunk_def)
  have flen: "length (fmtChunk h sr br ext) = 8 + (12 + length ext)"
    using assms(1) by (simp add: fmtChunk_def)
  have len: "length ?b = length xs + (8 + (12 + length ext)) + length ?tail" by (simp add: flen)
  have cnd: "length xs < length ?b - 8" using tlen len by arith
  have r: "readUInt32LE ?b (length xs + 4) = Some (12 + length ext)"
    by (rule readUInt32LE_le32[where xs = "xs @ bytesOf ''fmt ''"
          and ys = "h @ le32 sr @ le32 br @ ext @ ?tail"])
       (use assms in \<open>simp_all add: fmtChunk_def\<close>)
  have i: "asciiSlice ?b (length xs) (length xs + 4) = bytesOf ''fmt ''"
    by (rule asciiSlice_id[where xs = xs
          and ys = "le32 (12 + length ext) @ h @ le32 sr @ le32 br @ ext @ ?tail"])
       (simp_all add: fmtChunk_def ids)
  have s: "readUInt32LE ?b (length xs + 12) = Some sr"
    by (rule readUInt32LE_le32[where xs = "xs @ bytesOf ''fmt '' @ le32 (12 + length ext) @ h"
          and ys = "le32 br @ ext @ ?tail"])
       (use assms in \<open>simp_all add: fmtChunk_def\<close>)
  have y: "readUInt32LE ?b (length xs + 16) = Some br"
    by (rule readUInt32LE_le32[where xs = "xs @ bytesOf ''fmt '' @ le32 (12 + length ext) @ h @ le32 sr"
          and ys = "ext @ ?tail"])
       (use assms in \<open>simp_all add: fmtChunk_def\<close>)
  have nxt: "length xs + 8 + (12 + length ext) = length (xs @ fmtChunk h sr br ext)"
    by (simp add: flen)
  have b2: "?b = (xs @ fmtChunk h sr br ext) @ ?tail" by simp
  have d: "wavDataLoop ?b br (length xs + 8 + (12 + length ext)) =
             Inr (Some \<lparr> md_duration = Math_round (of_nat dataSize / of_nat br), md_isEstimated = False \<rparr>)"
    unfolding nxt unfolding b2 by (rule wavDataLoop_finds[OF assms(7,8,9)])
  have pos: "0 < sr \<and> 0 < br" using assms by simp
  show ?thesis
    by (subst wavChunkLoop.simps)
       (simp only: cnd r i s y d pos if_True option.case sum.case simp_thms)
qed

lemma wavChunkLoop_finds:
  assumes "list_all (plainChunk ''fmt '') pre"
    and "length h = 4" and "0 < sr" and "sr < 4294967296" and "0 < br" and "br < 4294967296"
    and "12 + length ext < 4294967296"
    and "list_all (plainChunk ''data'') mid" and "dataSize < 4294967296" and "rest \<noteq> []"
  shows "wavChunkLoop (xs @ concat (map wavChunk pre) @ fmtChunk h sr br ext @
                         concat (map wavChunk mid) @ dataChunk dataSize rest) (length xs) =
           Inr (Some \<lparr> md_duration = Math_round (of_nat dataSize / of_nat br), md_isEstimated = False \<rparr>)"
  using assms(1)
proof (induction pre arbitrary: xs)
  case Nil
  show ?case using wavChunkLoop_fmt[OF assms(2-10), of xs] by simp
next
  case (Cons c pre)
  from Cons.prems have pcc: "plainChunk ''fmt '' c" and rest': "list_all (plainChunk ''fmt '') pre"
    by simp_all
  from pcc have pc: "asciiId (fst c)" "fst c \<noteq> ''fmt ''" "length (snd c) < 4294967296"
    by (simp_all add: plainChunk_def)
  let ?tail = "concat (map wavChunk pre) @ fmtChunk h sr br ext @
                 concat (map wavChunk mid) @ dataChunk dataSize rest"
  let ?b = "xs @ concat (map wavChunk (c # pre)) @ fmtChunk h sr br ext @
                 concat (map wavChunk mid) @ dataChunk dataSize rest"
  have b: "?b = xs @ wavChunk c @ ?tail" by simp
  have ext: "8 < length ?tail" using assms(10) by (cases rest) (simp_all add: dataChunk_def)
  have len: "length ?b = length xs + (8 + length (snd c)) + length ?tail"
    unfolding b by (simp add: wavChunk_length[OF pc(1)])
  have cnd: "length xs < length ?b - 8" using ext len by arith
  have r: "readUInt32LE ?b (length xs + 4) = Some (length (snd c))"
    by (rule readUInt32LE_le32[where xs = "xs @ bytesOf (fst c)" and ys = "snd c @ ?tail"])
       (use pc in \<open>simp_all add: wavChunk_def asciiId_def\<close>)
  have i: "asciiSlice ?b (length xs) (length xs + 4) = bytesOf (fst c)"
    by (rule asciiSlice_id[where xs = xs and ys = "le32 (length (snd c)) @ snd c @ ?tail"])
       (use pc in \<open>simp_all add: wavChunk_def\<close>)
  have ne: "bytesOf (fst c) \<noteq> bytesOf ''fmt ''" using pc(2) bytesOf_inj by blast
  have nxt: "length xs + (8 + length (snd c)) = length (xs @ wavChunk c)"
    by (simp add: wavChunk_length[OF pc(1)])
  have b2: "?b = (xs @ wavChunk c) @ ?tail" by simp
  have "wavChunkLoop ?b (length xs) = wavChunkLoop ?b (length xs + (8 + length (snd c)))"
    by (subst wavChunkLoop.simps) (simp only: cnd r i ne if_True if_False option.case simp_thms)
  also have "\<dots> = wavChunkLoop ((xs @ wavChunk c) @ ?tail) (length (xs @ wavChunk c))"
    unfolding nxt b2 ..
  also have "\<dots> = Inr (Some \<lparr> md_duration = Math_round (of_nat dataSize / of_nat br), md_isEstimated = False \<rparr>)"
    by (rule Cons.IH[OF rest'])
  finally show ?case .
qed

lemma wavHeader_wellformed:
  assumes "list_all (plainChunk ''fmt '') pre"
    and "length h = 4" and "0 < sampleRate" and "sampleRate < 4294967296"
    and "0 < byteRate" and "byteRate < 4294967296"
    and "4 \<le> length ext" and "12 + length ext < 4294967296"
    and "list_all (plainChunk ''data'') mid" and "dataSize < 4294967296" and "rest \<noteq> []"
  shows "wavHeader (wavFile riffSize pre h sampleRate byteRate ext mid dataSize rest) =
           Inr \<lparr> md_duration = Math_round (of_nat dataSize / of_nat byteRate), md_isEstimated = False \<rparr>"
proof -
  let ?hd = "bytesOf ''RIFF'' @ le32 riffSize @ bytesOf ''WAVE''"
  let ?body = "concat (map wavChunk pre) @ fmtChunk h sampleRate byteRate ext @
                 concat (map wavChunk mid) @ dataChunk dataSize rest"
  let ?b = "wavFile riffSize pre h sampleRate byteRate ext mid dataSize rest"
  have b: "?b = ?hd @ ?body" by (simp add: wavFile_def)
  have hd: "length ?hd = 12" by simp
  have "32 < length (fmtChunk h sampleRate byteRate ext @ concat (map wavChunk mid) @ dataChunk dataSize rest)"
    using assms(2,7,11) by (cases rest) (simp_all add: fmtChunk_def dataChunk_def)
  then have "32 < length ?body" by simp
  then have len: "\<not> length ?b < 44" unfolding b by simp
  have riff: "asciiSlice ?b 0 4 = bytesOf ''RIFF''"
    using asciiSlice_id[where xs = "[]" and s = "''RIFF''" and b = ?b and off = 0
        and ys = "le32 riffSize @ bytesOf ''WAVE'' @ ?body"]
    by (simp add: wavFile_def ids)
  have wave: "asciiSlice ?b 8 12 = bytesOf ''WAVE''"
    using asciiSlice_id[where xs = "bytesOf ''RIFF'' @ le32 riffSize" and s = "''WAVE''" and b = ?b
        and off = 8 and ys = ?body]
    by (simp add: wavFile_def ids)
  have "wavChunkLoop (?hd @ ?body) (length ?hd) =
          Inr (Some \<lparr> md_duration = Math_round (of_nat dataSize / of_nat byteRate), md_isEstimated = False \<rparr>)"
    by (rule wavChunkLoop_finds[OF assms(1-6) assms(8-11)])
  then have loop: "wavChunkLoop ?b 12 =
          Inr (Some \<lparr> md_duration = Math_round (of_nat dataSize / of_nat byteRate), md_isEstimated = False \<rparr>)"
    unfolding b hd .
  show ?thesis using len riff wave loop by (simp add: wavHeader_def)
qed

text \<open>
  Claim C8, as the code has it. Take a WAV buffer laid out as the code walks it: the \<open>RIFF\<close> and \<open>WAVE\<close>
  marks, any chunks that are not \<open>fmt\<close>, the \<open>fmt\<close> chunk of at least 16 bytes with a
  positive sample rate and byte rate, any chunks that are not \<open>data\<close>, and the \<open>data\<close>
  chunk with its size field and at least one byte behind it; every chunk is its id, its
  size in 4 little-endian bytes and that many bytes. For a file name with the extension
  \<open>wav\<close>, \<open>extractDuration\<close> returns the size of the data divided by the byte rate,
  rounded, and marks it as exact.
\<close>

theorem extractDuration_wav_exact:
  assumes "extensionOf name = ''wav''"
    and "list_all (plainChunk ''fmt '') pre"
    and "length h = 4" and "0 < sampleRate" and "sampleRate < 4294967296"
    and "0 < byteRate" and "byteRate < 4294967296"
    and "4 \<le> length ext" and "12 + length ext < 4294967296"
    and "list_all (plainChunk ''data'') mid" and "dataSize < 4294967296" and "rest \<noteq> []"
  shows "extractDuration (wavFile riffSize pre h sampleRate byteRate ext mid dataSize rest) name =
           \<lparr> md_duration = Math_round (of_nat dataSize / of_nat byteRate), md_isEstimated = False \<rparr>"
  using wavHeader_wellformed[OF assms(2-12), of riffSize] assms(1)
  by (simp add: extractDuration_def durationSwitch_def catchDefault_def extractWavDuration_def)

text \<open>
  The synthetic WAV of the specification: sample rate 16000, byte rate 32000 and 64000
  bytes of data resolve to 2 seconds, exact.
\<close>

definition sampleWav :: buffer where
  "sampleWav = wavFile 64036 [] [1, 0, 1, 0] 16000 32000 [2, 0, 16, 0] [] 64000 (replicate 64000 0)"

lemma sample_wav_extension: "extensionOf ''sample.wav'' = ''wav''"
  by code_simp

lemma sample_round: "Math_round (of_nat 64000 / of_nat 32000) = 2"
  by (simp add: Math_round_def floor_rat_numeral_div)

theorem extractDuration_wav_exact_witness:
  "extractDuration sampleWav ''sample.wav'' = \<lparr> md_duration = 2, md_isEstimated = False \<rparr>"
proof -
  have ne: "replicate 64000 (0 :: 8 word) \<noteq> []" by simp
  have "extractDuration
     (wavFile 64036 [] [1, 0, 1, 0] 16000 32000 [2, 0, 16, 0] [] 64000 (replicate 64000 0)) ''sample.wav''
   = \<lparr> md_duration = Math_round (of_nat 64000 / of_nat 32000), md_isEstimated = False \<rparr>"
    by (rule extractDuration_wav_exact[OF sample_wav_extension]) (simp_all add: ne)
  then show ?thesis unfolding sample_round sampleWav_def .
qed

text \<open>
  Two well-formed WAV files outside this layout. The first is the 44-byte file of an
  empty recording: its data chunk has size 0 and nothing behind its header. The second
  has a \<open>LIST\<close> chunk of one byte between \<open>fmt\<close> and \<open>data\<close>, followed by the pad
  byte that the RIFF format puts behind a chunk of odd size, and four bytes of data.
\<close>

definition emptyWav :: buffer where
  "emptyWav = wavFile 36 [] [1, 0, 1, 0] 16000 32000 [2, 0, 16, 0] [] 0 []"

definition paddedWav :: buffer where
  "paddedWav =
     (bytesOf ''RIFF'' @ le32 50 @ bytesOf ''WAVE'') @ fmtChunk [1, 0, 1, 0] 16000 32000 [2, 0, 16, 0] @
     (bytesOf ''LIST'' @ le32 1 @ [0x41] @ [0]) @ dataChunk 4 [1, 2, 3, 4]"

lemma fourcc_bytes:
  "bytesOf ''RIFF'' = [82, 73, 70, 70]" "bytesOf ''WAVE'' = [87, 65, 86, 69]"
  "bytesOf ''fmt '' = [102, 109, 116, 32]" "bytesOf ''data'' = [100, 97, 116, 97]"
  "bytesOf ''LIST'' = [76, 73, 83, 84]"
  by (simp_all add: bytesOf_def charCode_def)

lemma emptyWav_bytes:
  "emptyWav = [82, 73, 70, 70, 36, 0, 0, 0, 87, 65, 86, 69, 102, 109, 116, 32, 16, 0, 0, 0,
               1, 0, 1, 0, 128, 62, 0, 0, 0, 125, 0, 0, 2, 0, 16, 0, 100, 97, 116, 97, 0, 0, 0, 0]"
  by (simp add: emptyWav_def wavFile_def fmtChunk_def dataChunk_def le32_def fourcc_bytes)

lemma paddedWav_bytes:
  "paddedWav = [82, 73, 70, 70, 50, 0, 0, 0, 87, 65, 86, 69, 102, 109, 116, 32, 16, 0, 0, 0,
                1, 0, 1, 0, 128, 62, 0, 0, 0, 125, 0, 0, 2, 0, 16, 0, 76, 73, 83, 84, 1, 0, 0, 0,
                65, 0, 100, 97, 116, 97, 4, 0, 0, 0, 1, 2, 3, 4]"
  by (simp add: paddedWav_def fmtChunk_def dataChunk_def le32_def fourcc_bytes)

lemma emptyWav_header: "wavHeader emptyWav = Inl (Error ''Could not parse WAV duration'')"
  unfolding emptyWav_bytes
  by (simp add: wavHeader_def wavChunkLoop.simps wavDataLoop.simps readUInt32LE_def asciiSlice_def
      fourcc_bytes)

lemma paddedWav_header: "wavHeader paddedWav = Inl (Error ''Could not parse WAV duration'')"
  unfolding paddedWav_bytes
  by (simp add: wavHeader_def wavChunkLoop.simps wavDataLoop.simps readUInt32LE_def asciiSlice_def
      fourcc_bytes)

lemma floor_half: "\<lfloor>1 / 2 :: rat\<rfloor> = 0"
  by (simp add: floor_eq_iff)

lemma small_estimates:
  "estimateBy emptyWav 176400 = \<lparr> md_duration = 1, md_isEstimated = True \<rparr>"
  "estimateBy paddedWav 176400 = \<lparr> md_duration = 1, md_isEstimated = True \<rparr>"
  by (simp_all add: estimateBy_def emptyWav_bytes paddedWav_bytes Math_round_def floor_rat_numeral_div)

text \<open>
  Claim C8 as stated fails for these two files: the walk does not reach the data chunk
  (the loop stops 8 bytes before the end of the buffer, and it does not step over the pad
  byte), and \<open>extractDuration\<close> returns the estimate of 1 second, marked as an estimate,
  where the claim gives the size of the data divided by the byte rate, 0 seconds, marked
  as exact.
\<close>

theorem extractDuration_wav_counterexample:
  "extractDuration emptyWav ''sample.wav'' = \<lparr> md_duration = 1, md_isEstimated = True \<rparr> \<and>
   extractDuration paddedWav ''sample.wav'' = \<lparr> md_duration = 1, md_isEstimated = True \<rparr> \<and>
   Math_round (of_nat 0 / of_nat 32000) = 0 \<and> Math_round (of_nat 4 / of_nat 32000) = 0"
  by (simp add: extractDuration_def durationSwitch_def catchDefault_def extractWavDuration_def
      sample_wav_extension emptyWav_header paddedWav_header small_estimates
      Math_round_def floor_rat_numeral_div floor_half)

subsection \<open>\<open>extractDuration\<close> always gives a duration\<close>

text \<open>
  What the parse of the container header gives for a file name: the result of the parser
  chosen by the extension, or \<open>None\<close> when the parser fails or the extension has none.
  And the byte rate the fallback for the extension assumes.
\<close>

definition headerParse :: "buffer \<Rightarrow> string \<Rightarrow> MediaDurationInfo option" where
  "headerParse b name =
     (let extension = extensionOf name in
      if extension = ''wav'' then (case wavHeader b of Inr r \<Rightarrow> Some r | Inl e \<Rightarrow> None)
      else if extension = ''mp3'' then (case mp3Header b of Inr (Some r) \<Rightarrow> Some r | Inr None \<Rightarrow> None | Inl e \<Rightarrow> None)
      else if extension = ''mp4'' \<or> extension = ''m4a'' then (case mp4Header b of Inr r \<Rightarrow> Some r | Inl e \<Rightarrow> None)
      else None)"

definition assumedRate :: "string \<Rightarrow> nat" where
  "assumedRate name =
     (let extension = extensionOf name in
      if extension = ''wav'' then 176400
      else if extension = ''mp3'' then 16000
      else if extension = ''mp4'' \<or> extension = ''m4a'' then 125000
      else 32000)"

lemma estimateBy_fields:
  "md_isEstimated (estimateBy b rate)" "1 \<le> md_duration (estimateBy b rate)"
  by (simp_all add: estimateBy_def)

lemma extractDuration_cases:
  "extractDuration b name =
     (case headerParse b name of Some r \<Rightarrow> r | None \<Rightarrow> estimateBy b (assumedRate name))"
  by (simp add: extractDuration_def durationSwitch_def catchDefault_def headerParse_def assumedRate_def
        extractWavDuration_def extractMp3Duration_def extractMp4Duration_def Let_def
      split: sum.splits option.splits)

lemma wavDataLoop_exact: "wavDataLoop b br off = Inr (Some r) \<Longrightarrow> \<not> md_isEstimated r"
proof (induction b br off rule: wavDataLoop.induct)
  case (1 b br off)
  from "1.prems" show ?case
    by (subst (asm) wavDataLoop.simps) (auto split: if_splits option.splits dest: "1.IH")
qed

lemma wavChunkLoop_exact: "wavChunkLoop b off = Inr (Some r) \<Longrightarrow> \<not> md_isEstimated r"
proof (induction b off rule: wavChunkLoop.induct)
  case (1 b off)
  from "1.prems" show ?case
    by (subst (asm) wavChunkLoop.simps)
       (auto split: if_splits option.splits sum.splits dest: "1.IH" wavDataLoop_exact)
qed

lemma tlenLoop_exact: "tlenLoop b bound i = Inr (Some r) \<Longrightarrow> \<not> md_isEstimated r"
proof (induction b bound i rule: tlenLoop.induct)
  case (1 b bound i)
  from "1.prems" show ?case
    by (subst (asm) tlenLoop.simps) (auto split: if_splits option.splits dest: "1.IH")
qed

lemma mvhdDuration_exact: "mvhdDuration b off = Inr (Some r) \<Longrightarrow> \<not> md_isEstimated r"
  by (auto simp: mvhdDuration_def split: option.splits if_splits)

lemma mp4AtomLoop_exact: "mp4AtomLoop b off = Inr (Some r) \<Longrightarrow> \<not> md_isEstimated r"
proof (induction b off rule: mp4AtomLoop.induct)
  case (1 b off)
  from "1.prems" show ?case
    by (subst (asm) mp4AtomLoop.simps)
       (auto split: if_splits option.splits sum.splits dest: "1.IH" mvhdDuration_exact)
qed

lemma headerParse_exact: "headerParse b name = Some r \<Longrightarrow> \<not> md_isEstimated r"
  by (auto simp: headerParse_def wavHeader_def mp3Header_def mp4Header_def Let_def
      split: if_splits sum.splits option.splits
      dest: wavChunkLoop_exact tlenLoop_exact mp4AtomLoop_exact)

text \<open>
  Claim C10. The body of the \<open>try\<close> of \<open>extractDuration\<close> never throws: every parser
  catches its own errors. When the container header gives no duration, the result is the
  estimate from the size of the buffer and the byte rate assumed for the extension,
  marked as an estimate and at least 1 second. The \<open>catch\<close> of \<open>extractDuration\<close> gives
  60 seconds marked as an estimate for any error. Every loop of the parsers ends, so the
  caller always receives a duration, and a duration marked as an estimate is at least
  1 second.
\<close>

theorem extractDuration_total:
  "(\<exists>r. durationSwitch b name = Inr r \<and> extractDuration b name = r) \<and>
   (headerParse b name = None \<longrightarrow>
      extractDuration b name = estimateBy b (assumedRate name) \<and>
      md_isEstimated (extractDuration b name) \<and> 1 \<le> md_duration (extractDuration b name)) \<and>
   (\<forall>r. headerParse b name = Some r \<longrightarrow> extractDuration b name = r \<and> \<not> md_isEstimated r) \<and>
   (\<forall>e. catchDefault (Inl e) = \<lparr> md_duration = 60, md_isEstimated = True \<rparr>) \<and>
   (md_isEstimated (extractDuration b name) \<longrightarrow> 1 \<le> md_duration (extractDuration b name))"
proof (intro conjI allI impI)
  show "\<exists>r. durationSwitch b name = Inr r \<and> extractDuration b name = r"
    by (simp add: extractDuration_def durationSwitch_def catchDefault_def Let_def)
next
  assume n: "headerParse b name = None"
  then show e: "extractDuration b name = estimateBy b (assumedRate name)"
    by (simp add: extractDuration_cases)
  show "md_isEstimated (extractDuration b name)" unfolding e by (rule estimateBy_fields)
  show "1 \<le> md_duration (extractDuration b name)" unfolding e by (rule estimateBy_fields)
next
  fix r assume s: "headerParse b name = Some r"
  then show "extractDuration b name = r" by (simp add: extractDuration_cases)
  show "\<not> md_isEstimated r" using s by (rule headerParse_exact)
next
  fix e show "catchDefault (Inl e) = \<lparr> md_duration = 60, md_isEstimated = True \<rparr>"
    by (simp add: catchDefault_def defaultDuration_def)
next
  assume est: "md_isEstimated (extractDuration b name)"
  show "1 \<le> md_duration (extractDuration b name)"
  proof (cases "headerParse b name")
    case None
    then show ?thesis by (simp add: extractDuration_cases estimateBy_fields)
  next
    case (Some r)
    then have "extractDuration b name = r" by (simp add: extractDuration_cases)
    with est headerParse_exact[OF Some] show ?thesis by simp
  qed
qed

text \<open>
  The theorem at a buffer of ten zero bytes named as a WAV file, for which the header
  parse fails, and at the synthetic WAV above, for which it succeeds.
\<close>

lemma short_wav_parse: "headerParse (replicate 10 0) ''sample.wav'' = None"
  by (simp add: headerParse_def sample_wav_extension wavHeader_def)

lemma short_wav_rate: "assumedRate ''sample.wav'' = 176400"
  by (simp add: assumedRate_def sample_wav_extension)

lemma sample_wav_parse:
  "headerParse sampleWav ''sample.wav'' = Some \<lparr> md_duration = 2, md_isEstimated = False \<rparr>"
proof -
  have ne: "replicate 64000 (0 :: 8 word) \<noteq> []" by simp
  have "wavHeader sampleWav =
          Inr \<lparr> md_duration = Math_round (of_nat 64000 / of_nat 32000), md_isEstimated = False \<rparr>"
    unfolding sampleWav_def by (rule wavHeader_wellformed) (simp_all add: ne)
  then have "wavHeader sampleWav = Inr \<lparr> md_duration = 2, md_isEstimated = False \<rparr>"
    unfolding sample_round .
  then show ?thesis by (simp add: headerParse_def sample_wav_extension)
qed

theorem extractDuration_total_witness:
  "extractDuration (replicate 10 0) ''sample.wav'' = \<lparr> md_duration = 1, md_isEstimated = True \<rparr> \<and>
   md_isEstimated (extractDuration (replicate 10 0) ''sample.wav'') \<and>
   1 \<le> md_duration (extractDuration (replicate 10 0) ''sample.wav'') \<and>
   extractDuration sampleWav ''sample.wav'' = \<lparr> md_duration = 2, md_isEstimated = False \<rparr> \<and>
   catchDefault (Inl rangeError) = \<lparr> md_duration = 60, md_isEstimated = True \<rparr>"
proof -
  have e: "estimateBy (replicate 10 0) 176400 = \<lparr> md_duration = 1, md_isEstimated = True \<rparr>"
    by (simp add: estimateBy_def Math_round_def floor_rat_numeral_div)
  from extractDuration_total [of "replicate 10 0" "''sample.wav''"] short_wav_parse
  have 1: "extractDuration (replicate 10 0) ''sample.wav'' = \<lparr> md_duration = 1, md_isEstimated = True \<rparr>"
    and 2: "catchDefault (Inl rangeError) = \<lparr> md_duration = 60, md_isEstimated = True \<rparr>"
    by (simp_all add: short_wav_rate e)
  from extractDuration_total [of sampleWav "''sample.wav''"] sample_wav_parse
  have 3: "extractDuration sampleWav ''sample.wav'' = \<lparr> md_duration = 2, md_isEstimated = False \<rparr>"
    by simp
  show ?thesis using 1 2 3 by simp
qed


end
